theory Spec2Isabelle
  imports Complex_Main
begin

section \<open>Data model of \<^verbatim>\<open>src/index.tsx\<close>\<close>

text \<open>
  The TypeScript types of the chat client, one HOL type each.  An optional field
  \<^verbatim>\<open>f?: T\<close> is a \<open>T option\<close>, \<open>None\<close> standing for \<^verbatim>\<open>undefined\<close>.  JavaScript strings
  are modelled as \<open>string\<close>, one \<open>char\<close> for each code unit (texts with code units
  below 256).  Record fields keep the names of the source, except where
  two types share a field name or the name is taken in Isabelle: \<^verbatim>\<open>ChatIndexItem.id\<close> is
  \<open>item_id\<close>, \<^verbatim>\<open>ChatMessage.file\<close> is \<open>msg_file\<close>, the \<^verbatim>\<open>title\<close> of a grounding source is
  \<open>source_title\<close>.
\<close>

datatype Model = Gemini | DeepSeek

datatype Sender = SUser | SModel

text \<open>
  A JavaScript number (an IEEE 754 double): a finite value that is not a negative zero
  (\<open>Num\<close>; \<open>Num 0\<close> is the positive zero), the negative zero, one of the two infinities,
  or NaN.
\<close>

datatype jsnum = Num real | NegZero | PosInfinity | NegInfinity | NaN

definition js_negative :: "jsnum \<Rightarrow> bool" where
  "js_negative v =
     (case v of Num x \<Rightarrow> x < 0 | NegZero \<Rightarrow> True | NegInfinity \<Rightarrow> True | _ \<Rightarrow> False)"

definition js_is_zero :: "jsnum \<Rightarrow> bool" where
  "js_is_zero v = (v = Num 0 \<or> v = NegZero)"

definition js_infinite :: "jsnum \<Rightarrow> bool" where
  "js_infinite v = (v = PosInfinity \<or> v = NegInfinity)"

definition signed_zero :: "bool \<Rightarrow> jsnum" where
  "signed_zero negative = (if negative then NegZero else Num 0)"

definition signed_infinity :: "bool \<Rightarrow> jsnum" where
  "signed_infinity negative = (if negative then NegInfinity else PosInfinity)"

text \<open>
  The division and the subtraction of doubles.  \<open>rnd\<close> is the rounding of the runtime:
  it gives the double for an exact result that is not zero (a finite value, a signed
  zero on underflow, an infinity on overflow), and is a parameter of the model.  The
  cases in which an operand is a zero, an infinity or NaN are those of IEEE 754; the
  difference of two equal finite values is the positive zero.
\<close>

definition js_div :: "(real \<Rightarrow> jsnum) \<Rightarrow> jsnum \<Rightarrow> jsnum \<Rightarrow> jsnum" where
  "js_div rnd a b =
     (let negative = (js_negative a \<noteq> js_negative b) in
      if a = NaN \<or> b = NaN then NaN
      else if js_infinite a then (if js_infinite b then NaN else signed_infinity negative)
      else if js_infinite b then signed_zero negative
      else if js_is_zero b then (if js_is_zero a then NaN else signed_infinity negative)
      else if js_is_zero a then signed_zero negative
      else (case (a, b) of (Num x, Num y) \<Rightarrow> rnd (x / y) | _ \<Rightarrow> NaN))"

definition js_sub :: "(real \<Rightarrow> jsnum) \<Rightarrow> real \<Rightarrow> real \<Rightarrow> jsnum" where
  "js_sub rnd x y = (if x = y then Num 0 else rnd (x - y))"

definition is_finite :: "jsnum \<Rightarrow> bool" where
  "is_finite v = (case v of Num _ \<Rightarrow> True | NegZero \<Rightarrow> True | _ \<Rightarrow> False)"

record MessageStats =
  tokenCount :: nat
  speed :: jsnum

record FileData =
  data :: string
  mimeType :: string

record GroundingSource =
  uri :: string
  source_title :: string

record ChatMessage =
  sender :: Sender
  content :: string
  timestamp :: string
  stats :: "MessageStats option"
  msg_file :: "FileData option"
  groundingSources :: "GroundingSource list option"

record ChatIndexItem =
  item_id :: string
  title :: string
  pinned :: "bool option"
  archived :: "bool option"

type_synonym ChatIndex = "ChatIndexItem list"

record ChatSettings =
  systemInstruction :: "string option"
  temperature :: "real option"
  model :: "Model option"

record StoredChat =
  settings :: ChatSettings
  messages :: "ChatMessage list"

text \<open>
  The global state of the module together with the part of \<^verbatim>\<open>localStorage\<close> that the
  chat functions read and write: the entry under \<^verbatim>\<open>CHAT_INDEX_KEY\<close> (\<open>stored_index\<close>)
  and the entries under \<^verbatim>\<open>CHAT_DATA_PREFIX + id\<close> (\<open>stored_chats\<close>, keyed by the id).
  Storage holds JSON text, so what is stored is a value snapshot that shares nothing
  with the arrays in memory; the model stores the value itself.  The DOM, the SDK's
  \<^verbatim>\<open>chat\<close> session object and the rendering functions carry no state that the
  functions below read, and are left out.
\<close>

record app_state =
  chatHistoryArray :: "ChatMessage list"
  currentSettings :: ChatSettings
  isGenerating :: bool
  stopGeneration :: bool
  attachedFile :: "FileData option"
  chatIndex :: ChatIndex
  activeChatId :: "string option"
  stored_index :: "ChatIndex option"
  stored_chats :: "string \<rightharpoonup> StoredChat"

text \<open>Truthiness of an optional boolean field and of an optional string.\<close>

definition truthy :: "bool option \<Rightarrow> bool" where
  "truthy b = (b = Some True)"

definition truthy_str :: "string option \<Rightarrow> bool" where
  "truthy_str s = (case s of None \<Rightarrow> False | Some t \<Rightarrow> t \<noteq> [])"

section \<open>Local storage functions\<close>

definition saveChatIndex :: "app_state \<Rightarrow> app_state" where
  "saveChatIndex st = st\<lparr>stored_index := Some (chatIndex st)\<rparr>"

definition getStoredChat :: "app_state \<Rightarrow> string \<Rightarrow> StoredChat option" where
  "getStoredChat st chatId = stored_chats st chatId"

definition saveCurrentChat :: "app_state \<Rightarrow> app_state" where
  "saveCurrentChat st =
     (if \<not> truthy_str (activeChatId st) then st
      else st\<lparr>stored_chats := (stored_chats st)
                (the (activeChatId st) \<mapsto>
                   \<lparr>settings = currentSettings st, messages = chatHistoryArray st\<rparr>)\<rparr>)"

text \<open>
  \<^verbatim>\<open>chatIndex.find(c => c.id === chatId)\<close> returns the first entry with that id, and an
  assignment to a field of the result changes that entry of the array in place.
\<close>

definition find_item :: "ChatIndex \<Rightarrow> string \<Rightarrow> ChatIndexItem option" where
  "find_item idx chatId = find (\<lambda>c. item_id c = chatId) idx"

fun update_first :: "('a \<Rightarrow> bool) \<Rightarrow> ('a \<Rightarrow> 'a) \<Rightarrow> 'a list \<Rightarrow> 'a list" where
  "update_first P f [] = []"
| "update_first P f (x # xs) = (if P x then f x # xs else x # update_first P f xs)"

definition updateChatMetadata ::
  "app_state \<Rightarrow> string \<Rightarrow> (ChatIndexItem \<Rightarrow> ChatIndexItem) \<Rightarrow> app_state" where
  "updateChatMetadata st chatId assign =
     (case find_item (chatIndex st) chatId of
        None \<Rightarrow> st
      | Some indexItem \<Rightarrow>
          saveChatIndex
            (st\<lparr>chatIndex := update_first (\<lambda>c. item_id c = chatId) assign (chatIndex st)\<rparr>))"

section \<open>Sidebar and chat management\<close>

definition loadChat :: "app_state \<Rightarrow> string \<Rightarrow> app_state" where
  "loadChat st chatId =
     (if activeChatId st = Some chatId then st
      else
        let st1 = st\<lparr>activeChatId := Some chatId\<rparr> in
        (case getStoredChat st1 chatId of
           Some storedChat \<Rightarrow>
             st1\<lparr>chatHistoryArray := messages storedChat,
                 currentSettings := settings storedChat\<rparr>
         | None \<Rightarrow> st1))"

definition defaultSettings :: ChatSettings where
  "defaultSettings =
     \<lparr>systemInstruction = None, temperature = Some (9 / 10), model = Some Gemini\<rparr>"

definition startNewChat :: "app_state \<Rightarrow> app_state" where
  "startNewChat st =
     st\<lparr>activeChatId := None, chatHistoryArray := [], currentSettings := defaultSettings\<rparr>"

text \<open>
  The step shared by \<^verbatim>\<open>deleteChat\<close> and \<^verbatim>\<open>toggleArchive\<close>: load the first entry of the
  catalog that is not archived, or start a new chat.
\<close>

definition activateNext :: "app_state \<Rightarrow> app_state" where
  "activateNext st =
     (case find (\<lambda>c. \<not> truthy (archived c)) (chatIndex st) of
        Some nextChat \<Rightarrow> loadChat st (item_id nextChat)
      | None \<Rightarrow> startNewChat st)"

text \<open>\<open>confirmed\<close> is the answer of the user to \<^verbatim>\<open>confirm('Delete this chat forever?')\<close>.\<close>

definition deleteChat :: "app_state \<Rightarrow> bool \<Rightarrow> string \<Rightarrow> app_state" where
  "deleteChat st confirmed chatId =
     (if confirmed then
        let st1 = st\<lparr>stored_chats := (stored_chats st)(chatId := None)\<rparr>;
            st2 = st1\<lparr>chatIndex := filter (\<lambda>c. item_id c \<noteq> chatId) (chatIndex st1)\<rparr>;
            st3 = saveChatIndex st2
        in if activeChatId st3 = Some chatId then activateNext st3 else st3
      else st)"

definition togglePin :: "app_state \<Rightarrow> string \<Rightarrow> app_state" where
  "togglePin st chatId =
     (case find_item (chatIndex st) chatId of
        None \<Rightarrow> st
      | Some item \<Rightarrow>
          let p = Some (\<not> truthy (pinned item));
              st1 = st\<lparr>chatIndex :=
                      update_first (\<lambda>c. item_id c = chatId) (\<lambda>c. c\<lparr>pinned := p\<rparr>) (chatIndex st)\<rparr>
          in updateChatMetadata st1 chatId (\<lambda>c. c\<lparr>pinned := p\<rparr>))"

definition toggleArchive :: "app_state \<Rightarrow> string \<Rightarrow> app_state" where
  "toggleArchive st chatId =
     (case find_item (chatIndex st) chatId of
        None \<Rightarrow> st
      | Some item \<Rightarrow>
          let a = \<not> truthy (archived item);
              p = (if a then Some False else pinned item);
              upd = (\<lambda>c. c\<lparr>archived := Some a, pinned := p\<rparr>);
              st1 = st\<lparr>chatIndex := update_first (\<lambda>c. item_id c = chatId) upd (chatIndex st)\<rparr>;
              st2 = updateChatMetadata st1 chatId upd
          in if a \<and> activeChatId st2 = Some chatId then activateNext st2 else st2)"

section \<open>Feature logic: regenerate and edit\<close>

text \<open>JavaScript's \<^verbatim>\<open>String.prototype.trim\<close> on the code units below 256.\<close>

definition is_ws :: "char \<Rightarrow> bool" where
  "is_ws c = (c \<in> {CHR 0x09, CHR 0x0A, CHR 0x0B, CHR 0x0C, CHR 0x0D, CHR 0x20, CHR 0xA0})"

definition trim :: "string \<Rightarrow> string" where
  "trim s = rev (dropWhile is_ws (rev (dropWhile is_ws s)))"

text \<open>
  The click handler of the Save button that \<^verbatim>\<open>handleEdit(wrapper, index)\<close> installs, up
  to the point where it calls \<^verbatim>\<open>sendMessage\<close>.  \<open>inputValue\<close> is the text in the edit
  box.  The result is the new state and the request to re-issue, if there is one.
  \<^verbatim>\<open>handleEdit\<close> reads \<^verbatim>\<open>chatHistoryArray[index].content\<close> when the editor opens, which
  throws for an index outside the array: \<open>None\<close>.  The turns are taken not to change
  between opening the editor and the click.
\<close>

definition handleEdit_save ::
  "app_state \<Rightarrow> nat \<Rightarrow> string \<Rightarrow> (app_state \<times> (string \<times> FileData option) option) option" where
  "handleEdit_save st index inputValue =
     (if index < length (chatHistoryArray st) then
        let message = chatHistoryArray st ! index;
            originalText = content message;
            newText = trim inputValue
        in if newText \<noteq> [] \<and> newText \<noteq> originalText then
             let h1 = (chatHistoryArray st)[index := message\<lparr>content := newText\<rparr>];
                 h2 = take (index + 1) h1
             in Some (saveCurrentChat (st\<lparr>chatHistoryArray := h2\<rparr>),
                      Some (newText, msg_file message))
           else Some (st, None)
      else None)"

section \<open>The JavaScript runtime and the markdown library\<close>

text \<open>
  The values that \<^verbatim>\<open>JSON.parse\<close> returns.  The entries of an object have distinct keys.
  A possibly undefined value is a \<open>json option\<close>.
\<close>

datatype json =
  JNull | JBool bool | JNum real | JStr string | JArr "json list" | JObj "(string \<times> json) list"

text \<open>
  What the sessions use of the runtime and of the markdown library is a parameter of
  the model: \<^verbatim>\<open>JSON.parse\<close> (\<open>None\<close> when it throws); the conversion to a string that
  \<^verbatim>\<open>+=\<close> applies to a value that is not a string; whether \<^verbatim>\<open>marked.parse\<close>, with the
  renderer that the module installs, returns for a text (\<open>False\<close>: it throws, as the
  table renderer of the module can); and the rounding of doubles.
\<close>

record js_env =
  JSON_parse :: "string \<Rightarrow> json option"
  ToString :: "json \<Rightarrow> string"
  marked_parse_returns :: "string \<Rightarrow> bool"
  to_double :: "real \<Rightarrow> jsnum"

section \<open>Streams as the session sees them\<close>

text \<open>
  What a transport delivers during one session, in the order in which the loop of the
  session receives it: a chunk (\<open>Next\<close>), the end of the stream (\<open>End\<close>) or an exception
  (\<open>Fail\<close>).  The flag of \<open>Next\<close> says whether the user pressed the stop button (the
  submit handler then sets \<^verbatim>\<open>stopGeneration\<close>, as \<^verbatim>\<open>isGenerating\<close> is true) while the
  session was suspended for this chunk: in the structured session between the test of
  \<^verbatim>\<open>stopGeneration\<close> for the previous chunk and the test for this one, in the text-delta
  session between the test before the read of this chunk and the test before the next
  read.
\<close>

datatype 'c source = Next bool 'c "'c source" | End | Fail

text \<open>
  The result of opening the transport: it fails (the SDK call or \<^verbatim>\<open>fetch\<close> throws, or the
  response is not ok), or it yields a stream; the flag says whether the stop button was
  pressed while the session was suspended in the opening call.
\<close>

datatype 'c opened = OpenFails | Opened bool "'c source"

text \<open>The stream that delivers the chunks \<open>cs\<close>, no stop pressed, and goes on as \<open>s\<close>.\<close>

fun feed :: "'c list \<Rightarrow> 'c source \<Rightarrow> 'c source" where
  "feed [] s = s"
| "feed (c # cs) s = Next False c (feed cs s)"

section \<open>The structured-stream session: \<^verbatim>\<open>sendMessageWithGemini\<close>\<close>

text \<open>
  The fields of a chunk of the SDK that the session reads: \<^verbatim>\<open>chunk.text\<close>,
  \<^verbatim>\<open>chunk.candidates?.[0]?.groundingMetadata?.groundingChunks\<close> and
  \<^verbatim>\<open>chunk.usageMetadata?.totalTokenCount\<close>.
\<close>

record GeminiChunk =
  chunk_text :: "string option"
  groundingChunks :: "GroundingSource list option"
  totalTokenCount :: "nat option"

text \<open>\<^verbatim>\<open>fullResponse += chunk.text\<close>: an undefined text is appended as its string.\<close>

definition text_of :: "GeminiChunk \<Rightarrow> string" where
  "text_of chunk = (case chunk_text chunk of None \<Rightarrow> ''undefined'' | Some t \<Rightarrow> t)"

definition sources_of :: "GeminiChunk \<Rightarrow> GroundingSource list" where
  "sources_of chunk = (case groundingChunks chunk of None \<Rightarrow> [] | Some g \<Rightarrow> g)"

record gemini_draft =
  fullResponse :: string
  lastChunk :: "GeminiChunk option"
  draftSources :: "GroundingSource list"

text \<open>
  The \<^verbatim>\<open>for await\<close> loop.  The argument after the stream is \<^verbatim>\<open>stopGeneration\<close>.  Each
  chunk that passes the test is added to the draft, and the draft is rendered with
  \<^verbatim>\<open>await marked.parse(fullResponse)\<close>.  The result is \<open>None\<close> when the stream or a
  rendering throws (the \<^verbatim>\<open>catch\<close> block is entered), otherwise the draft at the exit of
  the loop.
\<close>

fun gemini_loop ::
  "js_env \<Rightarrow> GeminiChunk source \<Rightarrow> bool \<Rightarrow> gemini_draft \<Rightarrow> gemini_draft option" where
  "gemini_loop env End stop d = Some d"
| "gemini_loop env Fail stop d = None"
| "gemini_loop env (Next pressed chunk rest) stop d =
     (if stop \<or> pressed then Some d
      else
        let d' = \<lparr>fullResponse = fullResponse d @ text_of chunk,
                  lastChunk = Some chunk,
                  draftSources = draftSources d @ sources_of chunk\<rparr>
        in if marked_parse_returns env (fullResponse d') then gemini_loop env rest False d'
           else None)"

text \<open>
  \<^verbatim>\<open>new Map(entries)\<close> as the list of its entries in insertion order: setting a key that
  is present replaces the value where it stands, a new key goes to the end.
\<close>

fun map_set :: "('k \<times> 'v) list \<Rightarrow> 'k \<Rightarrow> 'v \<Rightarrow> ('k \<times> 'v) list" where
  "map_set [] k v = [(k, v)]"
| "map_set ((k', v') # m) k v =
     (if k' = k then (k', v) # m else (k', v') # map_set m k v)"

definition new_Map :: "('k \<times> 'v) list \<Rightarrow> ('k \<times> 'v) list" where
  "new_Map entries = foldl (\<lambda>m (k, v). map_set m k v) [] entries"

definition uniqueSources :: "GroundingSource list \<Rightarrow> GroundingSource list" where
  "uniqueSources gs = map snd (new_Map (map (\<lambda>item. (uri item, item)) gs))"

text \<open>
  \<^verbatim>\<open>tokenCount = lastChunk?.usageMetadata?.totalTokenCount ?? 0\<close> and
  \<^verbatim>\<open>speed = tokenCount / ((endTime - startTime) / 1000)\<close>, in the arithmetic of doubles.
\<close>

definition gemini_stats :: "js_env \<Rightarrow> gemini_draft \<Rightarrow> real \<Rightarrow> real \<Rightarrow> MessageStats" where
  "gemini_stats env d startTime endTime =
     (let tc = (case lastChunk d of None \<Rightarrow> 0
                | Some c \<Rightarrow> (case totalTokenCount c of None \<Rightarrow> 0 | Some n \<Rightarrow> n));
          rnd = to_double env
      in \<lparr>tokenCount = tc,
          speed = js_div rnd (Num (real tc))
                    (js_div rnd (js_sub rnd endTime startTime) (Num 1000))\<rparr>)"

text \<open>The \<^verbatim>\<open>finally\<close> block of both sessions.\<close>

definition session_finally :: "app_state \<Rightarrow> app_state" where
  "session_finally st = st\<lparr>stopGeneration := False, isGenerating := False\<rparr>"

text \<open>
  \<open>startTime\<close> and \<open>endTime\<close> are the two readings of \<^verbatim>\<open>performance.now()\<close>,
  \<open>modelTimestamp\<close> is the reading of the clock at the commit.

  After the push and the save, each session renders the committed turn
  (\<^verbatim>\<open>appendMessage\<close>) and, in its \<^verbatim>\<open>finally\<close> block, the turns of the conversation
  (\<^verbatim>\<open>renderHistory\<close>).  These renderings come after the commit and change none of the
  fields of the state; the texts they render are the empty text or texts that a loop
  has rendered before, and the model takes them to return.
\<close>

definition sendMessageWithGemini ::
  "js_env \<Rightarrow> app_state \<Rightarrow> string \<Rightarrow> FileData option \<Rightarrow> GeminiChunk opened \<Rightarrow> real \<Rightarrow> real
     \<Rightarrow> string \<Rightarrow> app_state" where
  "sendMessageWithGemini env st userMessage file_arg response startTime endTime modelTimestamp =
     (let st1 = st\<lparr>isGenerating := True\<rparr>;
          st2 =
            (case response of
               OpenFails \<Rightarrow> st1
             | Opened pressed result \<Rightarrow>
                 (case gemini_loop env result (stopGeneration st1 \<or> pressed)
                         \<lparr>fullResponse = [], lastChunk = None, draftSources = []\<rparr> of
                    None \<Rightarrow> st1
                  | Some d \<Rightarrow>
                      let modelMessageForHistory =
                            \<lparr>sender = SModel, content = fullResponse d,
                             timestamp = modelTimestamp,
                             stats = Some (gemini_stats env d startTime endTime),
                             msg_file = None,
                             groundingSources = Some (uniqueSources (draftSources d))\<rparr>
                      in saveCurrentChat
                           (st1\<lparr>chatHistoryArray :=
                                  chatHistoryArray st1 @ [modelMessageForHistory]\<rparr>)))
      in session_finally st2)"

section \<open>The text-delta session: \<^verbatim>\<open>sendMessageWithDeepSeek\<close>\<close>

text \<open>
  Reading the property \<open>k\<close> (one of \<^verbatim>\<open>choices\<close>, \<^verbatim>\<open>delta\<close>, \<^verbatim>\<open>content\<close>) and the index
  \<^verbatim>\<open>0\<close> of a value that is neither null nor undefined.
\<close>

definition get_prop :: "string \<Rightarrow> json \<Rightarrow> json option" where
  "get_prop k v = (case v of JObj kvs \<Rightarrow> map_of kvs k | _ \<Rightarrow> None)"

definition index0 :: "json \<Rightarrow> json option" where
  "index0 v =
     (case v of
        JArr xs \<Rightarrow> (case xs of [] \<Rightarrow> None | x # _ \<Rightarrow> Some x)
      | JStr s \<Rightarrow> (case s of [] \<Rightarrow> None | c # _ \<Rightarrow> Some (JStr [c]))
      | JObj kvs \<Rightarrow> map_of kvs ''0''
      | _ \<Rightarrow> None)"

text \<open>The optional chain \<^verbatim>\<open>v?.k\<close>.\<close>

definition opt_chain :: "json option \<Rightarrow> string \<Rightarrow> json option" where
  "opt_chain v k = (case v of None \<Rightarrow> None | Some JNull \<Rightarrow> None | Some w \<Rightarrow> get_prop k w)"

definition falsy :: "json option \<Rightarrow> bool" where
  "falsy v =
     (case v of
        None \<Rightarrow> True
      | Some JNull \<Rightarrow> True
      | Some (JBool b) \<Rightarrow> \<not> b
      | Some (JNum r) \<Rightarrow> r = 0
      | Some (JStr s) \<Rightarrow> s = []
      | Some _ \<Rightarrow> False)"

text \<open>
  \<^verbatim>\<open>chunkData.choices[0]?.delta?.content || ''\<close>; \<open>None\<close> when the expression throws a
  TypeError (\<^verbatim>\<open>chunkData\<close> is null, or \<^verbatim>\<open>chunkData.choices\<close> is null or undefined).
\<close>

definition textChunk :: "json \<Rightarrow> json option" where
  "textChunk chunkData =
     (if chunkData = JNull then None
      else case get_prop ''choices'' chunkData of
             None \<Rightarrow> None
           | Some JNull \<Rightarrow> None
           | Some choices \<Rightarrow>
               let c = opt_chain (opt_chain (index0 choices) ''delta'') ''content''
               in if falsy c then Some (JStr []) else c)"

definition append_value :: "js_env \<Rightarrow> string \<Rightarrow> json \<Rightarrow> string" where
  "append_value env full v = full @ (case v of JStr s \<Rightarrow> s | _ \<Rightarrow> ToString env v)"

text \<open>\<^verbatim>\<open>buffer.split('\n')\<close>: never empty; the last element is the text after the last newline.\<close>

fun split_nl :: "string \<Rightarrow> string list" where
  "split_nl [] = [[]]"
| "split_nl (c # cs) =
     (if c = CHR 0x0A then [] # split_nl cs
      else (case split_nl cs of l # ls \<Rightarrow> (c # l) # ls | [] \<Rightarrow> [[c]]))"

text \<open>
  The \<^verbatim>\<open>for (const line of lines)\<close> loop.  The result is whether \<^verbatim>\<open>[DONE]\<close> was met
  (\<^verbatim>\<open>stopGeneration = true; break\<close>) and the new \<^verbatim>\<open>fullResponse\<close>.
\<close>

fun process_lines :: "js_env \<Rightarrow> string list \<Rightarrow> string \<Rightarrow> bool \<times> string" where
  "process_lines env [] full = (False, full)"
| "process_lines env (line # rest) full =
     (if take 6 line = ''data: '' then
        let jsonString = trim (drop 6 line) in
        if jsonString = ''[DONE]'' then (True, full)
        else (case JSON_parse env jsonString of
                None \<Rightarrow> process_lines env rest full
              | Some chunkData \<Rightarrow>
                  (case textChunk chunkData of
                     None \<Rightarrow> process_lines env rest full
                   | Some v \<Rightarrow> process_lines env rest (append_value env full v)))
      else process_lines env rest full)"

text \<open>
  The \<^verbatim>\<open>while (!stopGeneration)\<close> loop.  A chunk of the stream is the text that the
  streaming decoder returns for one read.  The arguments after the stream are
  \<^verbatim>\<open>stopGeneration\<close>, \<^verbatim>\<open>buffer\<close> and \<^verbatim>\<open>fullResponse\<close>.  After the lines of a read, also
  when they held \<^verbatim>\<open>[DONE]\<close>, the text is rendered with
  \<^verbatim>\<open>await marked.parse(fullResponse)\<close>.  The result is \<open>None\<close> when a read or a
  rendering throws (the \<^verbatim>\<open>catch\<close> block is entered), otherwise \<^verbatim>\<open>buffer\<close> and
  \<^verbatim>\<open>fullResponse\<close> at the exit of the loop.  The flag is tested before each read, so a
  stop pressed while a read is awaited takes effect after the chunk of that read has
  been processed and rendered.
\<close>

fun deepseek_loop ::
  "js_env \<Rightarrow> string source \<Rightarrow> bool \<Rightarrow> string \<Rightarrow> string \<Rightarrow> (string \<times> string) option" where
  "deepseek_loop env End stop buffer full = Some (buffer, full)"
| "deepseek_loop env Fail stop buffer full = (if stop then Some (buffer, full) else None)"
| "deepseek_loop env (Next pressed v rest) stop buffer full =
     (if stop then Some (buffer, full)
      else
        let lines = split_nl (buffer @ v);
            (done, full') = process_lines env (butlast lines) full
        in if marked_parse_returns env full'
           then deepseek_loop env rest (done \<or> pressed) (last lines) full'
           else None)"

definition clearAttachedFile :: "app_state \<Rightarrow> app_state" where
  "clearAttachedFile st = st\<lparr>attachedFile := None\<rparr>"

definition sendMessageWithDeepSeek ::
  "js_env \<Rightarrow> app_state \<Rightarrow> string \<Rightarrow> FileData option \<Rightarrow> string opened \<Rightarrow> string \<Rightarrow> app_state" where
  "sendMessageWithDeepSeek env st userMessage file_arg response modelTimestamp =
     (if file_arg \<noteq> None then clearAttachedFile st
      else
        let st1 = st\<lparr>isGenerating := True\<rparr>;
            st2 =
              (case response of
                 OpenFails \<Rightarrow> st1
               | Opened pressed reader \<Rightarrow>
                   (case deepseek_loop env reader (stopGeneration st1 \<or> pressed) [] [] of
                      None \<Rightarrow> st1
                    | Some (buffer, full) \<Rightarrow>
                        let modelMessageForHistory =
                              \<lparr>sender = SModel, content = full, timestamp = modelTimestamp,
                               stats = None, msg_file = None, groundingSources = None\<rparr>
                        in saveCurrentChat
                             (st1\<lparr>chatHistoryArray :=
                                    chatHistoryArray st1 @ [modelMessageForHistory]\<rparr>)))
        in session_finally st2)"

section \<open>Sending a message\<close>

text \<open>
  What the outside world does during one send: the behaviour of the two transports (the
  one of the selected backend is used), the readings of \<^verbatim>\<open>performance.now()\<close> and the
  timestamp of the commit.
\<close>

record send_env =
  gemini_response :: "GeminiChunk opened"
  deepseek_response :: "string opened"
  startTime :: real
  endTime :: real
  modelTimestamp :: string

definition sendMessage ::
  "js_env \<Rightarrow> send_env \<Rightarrow> app_state \<Rightarrow> string \<Rightarrow> FileData option \<Rightarrow> app_state" where
  "sendMessage env w st userMessage file_arg =
     (if (case model (currentSettings st) of None \<Rightarrow> Gemini | Some m \<Rightarrow> m) = DeepSeek
      then sendMessageWithDeepSeek env st userMessage file_arg
             (deepseek_response w) (modelTimestamp w)
      else sendMessageWithGemini env st userMessage file_arg
             (gemini_response w) (startTime w) (endTime w) (modelTimestamp w))"

text \<open>
  The user turn that \<^verbatim>\<open>handleFormSubmit\<close> appends, and the state in which it calls
  \<^verbatim>\<open>sendMessage\<close>.  \<open>dateNow\<close> is the decimal text of \<^verbatim>\<open>Date.now()\<close>.
\<close>

definition userMessageForHistory :: "app_state \<Rightarrow> string \<Rightarrow> string \<Rightarrow> ChatMessage" where
  "userMessageForHistory st userMessage userTimestamp =
     \<lparr>sender = SUser, content = userMessage, timestamp = userTimestamp, stats = None,
      msg_file = attachedFile st, groundingSources = None\<rparr>"

definition assignChatId :: "app_state \<Rightarrow> string \<Rightarrow> string \<Rightarrow> app_state" where
  "assignChatId st userMessage dateNow =
     (if \<not> truthy_str (activeChatId st) then
        let newId = ''chat_'' @ dateNow;
            title0 = take 30 userMessage;
            newIndexItem =
              \<lparr>item_id = newId, title = (if title0 = [] then ''New Chat'' else title0),
               pinned = Some False, archived = Some False\<rparr>
        in saveChatIndex (st\<lparr>activeChatId := Some newId, chatIndex := newIndexItem # chatIndex st\<rparr>)
      else st)"

text \<open>
  The state in which \<^verbatim>\<open>handleFormSubmit\<close> calls \<^verbatim>\<open>sendMessage\<close>: the id is assigned
  and the user turn is pushed; the source has the comment \<^verbatim>\<open>Don't save yet, save after
  model response\<close> at this point.
\<close>

definition beforeSend :: "app_state \<Rightarrow> string \<Rightarrow> string \<Rightarrow> string \<Rightarrow> app_state" where
  "beforeSend st userMessage dateNow userTimestamp =
     (let st1 = assignChatId st userMessage dateNow
      in st1\<lparr>chatHistoryArray :=
               chatHistoryArray st1 @ [userMessageForHistory st1 userMessage userTimestamp]\<rparr>)"

definition handleFormSubmit ::
  "js_env \<Rightarrow> send_env \<Rightarrow> app_state \<Rightarrow> bool \<Rightarrow> string \<Rightarrow> string \<Rightarrow> string \<Rightarrow> app_state" where
  "handleFormSubmit env w st isRecording inputValue dateNow userTimestamp =
     (if isGenerating st then st\<lparr>stopGeneration := True\<rparr>
      else if isRecording then st
      else
        let userMessage = trim inputValue in
        if userMessage = [] \<and> attachedFile st = None then st
        else
          let st2 = beforeSend st userMessage dateNow userTimestamp;
              st3 = sendMessage env w st2 userMessage (attachedFile st2)
          in clearAttachedFile st3)"

section \<open>Notions used in the properties of the catalog\<close>

text \<open>The invariant of the catalog: an archived entry is not pinned.\<close>

definition catalog_inv :: "ChatIndex \<Rightarrow> bool" where
  "catalog_inv idx = list_all (\<lambda>c. truthy (archived c) \<longrightarrow> \<not> truthy (pinned c)) idx"

text \<open>What \<^verbatim>\<open>togglePin\<close> and \<^verbatim>\<open>toggleArchive\<close> do to the entry they find.\<close>

definition pin_flip :: "ChatIndexItem \<Rightarrow> ChatIndexItem" where
  "pin_flip c = c\<lparr>pinned := Some (\<not> truthy (pinned c))\<rparr>"

definition archive_flip :: "ChatIndexItem \<Rightarrow> ChatIndexItem" where
  "archive_flip c =
     c\<lparr>archived := Some (\<not> truthy (archived c)),
       pinned := (if \<not> truthy (archived c) then Some False else pinned c)\<rparr>"

text \<open>
  Sequences of pin and archive operations, and the states after each operation.
  \<^verbatim>\<open>createConversationItem\<close> gives the pin button only to an entry that is not archived;
  \<open>pins_offered\<close> says that every \<open>TogglePin\<close> of a sequence meets, in the state in which
  it runs, an entry that is not archived (or none).
\<close>

datatype catalog_op = TogglePin string | ToggleArchive string

fun apply_op :: "app_state \<Rightarrow> catalog_op \<Rightarrow> app_state" where
  "apply_op st (TogglePin i) = togglePin st i"
| "apply_op st (ToggleArchive i) = toggleArchive st i"

fun run_ops :: "app_state \<Rightarrow> catalog_op list \<Rightarrow> app_state list" where
  "run_ops st [] = []"
| "run_ops st (x # xs) = apply_op st x # run_ops (apply_op st x) xs"

fun pin_offered :: "app_state \<Rightarrow> catalog_op \<Rightarrow> bool" where
  "pin_offered st (TogglePin i) =
     (case find_item (chatIndex st) i of None \<Rightarrow> True | Some item \<Rightarrow> \<not> truthy (archived item))"
| "pin_offered st (ToggleArchive i) = True"

fun pins_offered :: "app_state \<Rightarrow> catalog_op list \<Rightarrow> bool" where
  "pins_offered st [] = True"
| "pins_offered st (x # xs) = (pin_offered st x \<and> pins_offered (apply_op st x) xs)"

text \<open>
  The first entry of the catalog, in its order, that is not the entry \<open>chatId\<close> and is
  not archived.
\<close>

definition first_remaining :: "ChatIndex \<Rightarrow> string \<Rightarrow> ChatIndexItem option" where
  "first_remaining idx chatId = find (\<lambda>c. item_id c \<noteq> chatId \<and> \<not> truthy (archived c)) idx"

text \<open>
  \<open>activated st st' nxt\<close>: in \<open>st'\<close> the active conversation is the one of the entry
  \<open>nxt\<close>, with the turns and settings stored for it in \<open>st\<close> when there are any; without
  an entry, \<open>st'\<close> holds a new conversation that has no id.
\<close>

definition activated :: "app_state \<Rightarrow> app_state \<Rightarrow> ChatIndexItem option \<Rightarrow> bool" where
  "activated st st' nxt =
     (case nxt of
        Some nextChat \<Rightarrow>
          activeChatId st' = Some (item_id nextChat) \<and>
          (case stored_chats st (item_id nextChat) of
             Some sc \<Rightarrow> chatHistoryArray st' = messages sc \<and> currentSettings st' = settings sc
           | None \<Rightarrow> True)
      | None \<Rightarrow>
          activeChatId st' = None \<and> chatHistoryArray st' = [] \<and>
          currentSettings st' = defaultSettings)"

section \<open>Example states\<close>

text \<open>The state of \<^verbatim>\<open>initializeAppForUser\<close> on an empty storage.\<close>

definition st_init :: app_state where
  "st_init =
     \<lparr>chatHistoryArray = [], currentSettings = defaultSettings, isGenerating = False,
      stopGeneration = False, attachedFile = None, chatIndex = [], activeChatId = None,
      stored_index = None, stored_chats = Map.empty\<rparr>"

definition entry :: "string \<Rightarrow> bool \<Rightarrow> bool \<Rightarrow> ChatIndexItem" where
  "entry i p a = \<lparr>item_id = i, title = ''New Chat'', pinned = Some p, archived = Some a\<rparr>"

definition turn :: "Sender \<Rightarrow> string \<Rightarrow> ChatMessage" where
  "turn s t = \<lparr>sender = s, content = t, timestamp = ''2025-01-01T00:00:00.000Z'', stats = None,
     msg_file = None, groundingSources = None\<rparr>"

text \<open>One conversation, pinned and active.\<close>

definition st_one :: app_state where
  "st_one = st_init\<lparr>chatIndex := [entry ''chat_1'' True False], activeChatId := Some ''chat_1''\<rparr>"

text \<open>Two stored conversations; the older one, \<^verbatim>\<open>chat_1\<close>, is active.\<close>

definition st_two :: app_state where
  "st_two = st_init
     \<lparr>chatHistoryArray := [turn SUser ''hello'', turn SModel ''hi there''],
      chatIndex := [entry ''chat_2'' False False, entry ''chat_1'' False False],
      activeChatId := Some ''chat_1'',
      stored_chats :=
        [''chat_1'' \<mapsto> \<lparr>settings = defaultSettings,
                         messages = [turn SUser ''hello'', turn SModel ''hi there'']\<rparr>,
         ''chat_2'' \<mapsto> \<lparr>settings = defaultSettings\<lparr>model := Some DeepSeek\<rparr>,
                         messages = [turn SUser ''ping'', turn SModel ''pong'']\<rparr>]\<rparr>"

section \<open>Notions used in the properties of the sessions\<close>

text \<open>The elements of a list in the order of their first occurrence, each once.\<close>

definition first_seen :: "'a list \<Rightarrow> 'a list" where
  "first_seen xs = rev (remdups (rev xs))"

text \<open>The draft of \<^verbatim>\<open>sendMessageWithGemini\<close> at the start, and after the chunks \<open>cs\<close>.\<close>

definition draft0 :: gemini_draft where
  "draft0 = \<lparr>fullResponse = [], lastChunk = None, draftSources = []\<rparr>"

definition absorb :: "gemini_draft \<Rightarrow> GeminiChunk list \<Rightarrow> gemini_draft" where
  "absorb d cs =
     \<lparr>fullResponse = fullResponse d @ concat (map text_of cs),
      lastChunk = (if cs = [] then lastChunk d else Some (last cs)),
      draftSources = draftSources d @ concat (map sources_of cs)\<rparr>"

text \<open>
  Every rendering that the loop of \<^verbatim>\<open>sendMessageWithGemini\<close> performs on the chunks
  \<open>cs\<close>, starting from the text \<open>full\<close>, returns: the text after each chunk renders.
\<close>

definition chunks_render :: "js_env \<Rightarrow> string \<Rightarrow> GeminiChunk list \<Rightarrow> bool" where
  "chunks_render env full cs =
     list_all (\<lambda>k. marked_parse_returns env (full @ concat (map text_of (take k cs))))
       [1..<Suc (length cs)]"

text \<open>
  The elapsed seconds as the session computes them from the two readings of the clock:
  \<^verbatim>\<open>(endTime - startTime) / 1000\<close>.
\<close>

definition elapsedSeconds :: "js_env \<Rightarrow> real \<Rightarrow> real \<Rightarrow> jsnum" where
  "elapsedSeconds env t0 t1 = js_div (to_double env) (js_sub (to_double env) t1 t0) (Num 1000)"

text \<open>The model turn that \<^verbatim>\<open>sendMessageWithGemini\<close> commits for a draft.\<close>

definition gemini_message :: "js_env \<Rightarrow> gemini_draft \<Rightarrow> real \<Rightarrow> real \<Rightarrow> string \<Rightarrow> ChatMessage" where
  "gemini_message env d t0 t1 ts =
     \<lparr>sender = SModel, content = fullResponse d, timestamp = ts,
      stats = Some (gemini_stats env d t0 t1), msg_file = None,
      groundingSources = Some (uniqueSources (draftSources d))\<rparr>"

text \<open>
  \<open>committed st st' txt\<close>: the turns of \<open>st'\<close> are those of \<open>st\<close> and one model turn with
  the content \<open>txt\<close> after them.
\<close>

definition committed :: "app_state \<Rightarrow> app_state \<Rightarrow> string \<Rightarrow> bool" where
  "committed st st' txt =
     (chatHistoryArray st' \<noteq> [] \<and> butlast (chatHistoryArray st') = chatHistoryArray st \<and>
      sender (last (chatHistoryArray st')) = SModel \<and>
      content (last (chatHistoryArray st')) = txt)"

text \<open>
  The token count of a completed stream: \<^verbatim>\<open>totalTokenCount\<close> of the last chunk when the
  stream has a chunk and the field is present, otherwise 0.
\<close>

definition tokens_of :: "GeminiChunk list \<Rightarrow> nat" where
  "tokens_of cs =
     (case (if cs = [] then None else totalTokenCount (last cs)) of None \<Rightarrow> 0 | Some n \<Rightarrow> n)"

section \<open>Example chunks\<close>

definition cite :: "string \<Rightarrow> string \<Rightarrow> GroundingSource" where
  "cite u t = \<lparr>uri = u, source_title = t\<rparr>"

definition gchunk :: "string \<Rightarrow> GroundingSource list \<Rightarrow> nat option \<Rightarrow> GeminiChunk" where
  "gchunk t g n = \<lparr>chunk_text = Some t, groundingChunks = Some g, totalTokenCount = n\<rparr>"

text \<open>Three chunks with one citation each; the last one reports 42 tokens.\<close>

definition three_cites :: "GeminiChunk list" where
  "three_cites =
     [gchunk ''Hel'' [cite ''a'' ''X''] None, gchunk ''lo'' [cite ''a'' ''Y''] None,
      gchunk ''!'' [cite ''b'' ''Z''] (Some 42)]"

section \<open>Notions used in the properties of the text-delta session\<close>

text \<open>
  The lines of a text that end in a newline, and the text that the \<^verbatim>\<open>for\<close> loop of the
  session accumulates from them, starting from the empty \<^verbatim>\<open>fullResponse\<close>: the decoding
  of the unsplit input.
\<close>

definition complete_lines :: "string \<Rightarrow> string list" where
  "complete_lines t = butlast (split_nl t)"

definition decode :: "js_env \<Rightarrow> string \<Rightarrow> string" where
  "decode env t = snd (process_lines env (complete_lines t) [])"

text \<open>
  A record is a line with the prefix \<^verbatim>\<open>data: \<close>; its payload is the rest, trimmed.  The
  sentinel is the record with the payload \<^verbatim>\<open>[DONE]\<close>.  The delta of a record is the text
  that the loop appends for it, if it appends any; a malformed record is one whose
  payload is not the sentinel and on which \<^verbatim>\<open>JSON.parse\<close> throws.
\<close>

definition is_record :: "string \<Rightarrow> bool" where
  "is_record line = (take 6 line = ''data: '')"

definition payload :: "string \<Rightarrow> string" where
  "payload line = trim (drop 6 line)"

definition is_done :: "string \<Rightarrow> bool" where
  "is_done line = (is_record line \<and> payload line = ''[DONE]'')"

definition record_delta :: "js_env \<Rightarrow> string \<Rightarrow> string option" where
  "record_delta env line =
     (if is_record line then
        (case JSON_parse env (payload line) of
           None \<Rightarrow> None
         | Some chunkData \<Rightarrow>
             (case textChunk chunkData of
                None \<Rightarrow> None
              | Some v \<Rightarrow> Some (append_value env [] v)))
      else None)"

definition malformed :: "js_env \<Rightarrow> string \<Rightarrow> bool" where
  "malformed env line =
     (is_record line \<and> payload line \<noteq> ''[DONE]'' \<and> JSON_parse env (payload line) = None)"

text \<open>
  The state of the \<^verbatim>\<open>while\<close> loop (\<^verbatim>\<open>stopGeneration\<close>, \<^verbatim>\<open>buffer\<close>, \<^verbatim>\<open>fullResponse\<close>) after
  the reads \<open>vs\<close>, none of them with a stop pressed.
\<close>

fun ds_run :: "js_env \<Rightarrow> string list \<Rightarrow> bool \<Rightarrow> string \<Rightarrow> string \<Rightarrow> bool \<times> string \<times> string" where
  "ds_run env [] stop b f = (stop, b, f)"
| "ds_run env (v # vs) stop b f =
     (if stop then (stop, b, f)
      else
        let lines = split_nl (b @ v);
            (done, f') = process_lines env (butlast lines) f
        in ds_run env vs done (last lines) f')"

text \<open>
  Every rendering that the loop of \<^verbatim>\<open>sendMessageWithDeepSeek\<close> performs on the reads
  \<open>vs\<close> returns: the text decoded after each read renders.
\<close>

definition reads_render :: "js_env \<Rightarrow> string list \<Rightarrow> bool" where
  "reads_render env vs =
     list_all (\<lambda>k. marked_parse_returns env (decode env (concat (take k vs))))
       [1..<Suc (length vs)]"

text \<open>The model turn that \<^verbatim>\<open>sendMessageWithDeepSeek\<close> commits for a text.\<close>

definition deepseek_message :: "string \<Rightarrow> string \<Rightarrow> ChatMessage" where
  "deepseek_message txt ts =
     \<lparr>sender = SModel, content = txt, timestamp = ts, stats = None, msg_file = None,
      groundingSources = None\<rparr>"

section \<open>Example frames and an example runtime\<close>

text \<open>
  The record line that carries the delta \<open>t\<close>:
  \<^verbatim>\<open>data: {"choices":[{"delta":{"content":"t"}}]}\<close>, and the value it parses to.
\<close>

definition quoted :: "string \<Rightarrow> string" where
  "quoted s = CHR 0x22 # s @ [CHR 0x22]"

definition frame_prefix :: string where
  "frame_prefix =
     ''{'' @ quoted ''choices'' @ '':[{'' @ quoted ''delta'' @ '':{'' @ quoted ''content''
       @ '':'' @ [CHR 0x22]"

definition frame_suffix :: string where
  "frame_suffix = CHR 0x22 # ''}}]}''"

definition frame :: "string \<Rightarrow> string" where
  "frame t = ''data: '' @ frame_prefix @ t @ frame_suffix"

definition delta_json :: "string \<Rightarrow> json" where
  "delta_json t = JObj [(''choices'', JArr [JObj [(''delta'', JObj [(''content'', JStr t)])]])]"

text \<open>
  A runtime for the examples.  Its \<^verbatim>\<open>JSON.parse\<close> accepts the payloads of the frames
  above (with a delta free of quotes and backslashes), \<^verbatim>\<open>{}\<close> and \<^verbatim>\<open>null\<close>, and throws
  on every other text.  Its \<^verbatim>\<open>marked.parse\<close> returns on every text but those that
  contain the character \<^verbatim>\<open>|\<close> (a table).  Its rounding is exact; the examples compute
  with values whose results are doubles.
\<close>

definition example_parse :: "string \<Rightarrow> json option" where
  "example_parse s =
     (let n = length frame_prefix; k = length frame_suffix;
          body = take (length s - n - k) (drop n s)
      in if n + k \<le> length s \<and> take n s = frame_prefix \<and> drop (length s - k) s = frame_suffix
            \<and> CHR 0x22 \<notin> set body \<and> CHR 0x5C \<notin> set body
         then Some (delta_json body)
         else if s = ''{}'' then Some (JObj [])
         else if s = ''null'' then Some JNull
         else None)"

definition example_env :: js_env where
  "example_env =
     \<lparr>JSON_parse = example_parse, ToString = (\<lambda>v. ''[object Object]''),
      marked_parse_returns = (\<lambda>t. CHR ''|'' \<notin> set t), to_double = Num\<rparr>"


text \<open>
  Example streams.  \<open>split_reads\<close> delivers two frames, the sentinel and a further frame,
  cut inside lines; \<open>noisy_reads\<close> delivers two frames with a truncated record between
  them.
\<close>

definition nl :: string where
  "nl = [CHR 0x0A]"

definition done_line :: string where
  "done_line = ''data: [DONE]''"

definition stream_text :: string where
  "stream_text = frame ''Hel'' @ nl @ frame ''lo'' @ nl"

definition split_reads :: "string list" where
  "split_reads =
     [''data: '' @ frame_prefix @ ''He'',
      ''l'' @ frame_suffix @ nl @ frame ''lo'' @ nl @ ''data: [DO'',
      ''NE]'' @ nl @ frame ''XX'' @ nl @ ''data: ''] "

definition bad_line :: string where
  "bad_line = ''data: {'' @ quoted ''cho''"

definition noisy_reads :: "string list" where
  "noisy_reads = [frame ''Hel'' @ nl @ bad_line, nl @ frame ''lo'', nl]"

section \<open>Notions used in the properties of a send\<close>

text \<open>The backend that \<^verbatim>\<open>sendMessage\<close> selects.\<close>

definition selected_model :: "app_state \<Rightarrow> Model" where
  "selected_model st = (case model (currentSettings st) of None \<Rightarrow> Gemini | Some m \<Rightarrow> m)"

text \<open>
  The session of a send throws: the transport of the selected backend fails to open,
  or its stream or a rendering of the draft throws before the loop of the session has
  ended.
\<close>

definition session_throws :: "js_env \<Rightarrow> send_env \<Rightarrow> app_state \<Rightarrow> bool" where
  "session_throws env w st =
     (if selected_model st = DeepSeek then
        (case deepseek_response w of
           OpenFails \<Rightarrow> True
         | Opened p r \<Rightarrow> deepseek_loop env r (stopGeneration st \<or> p) [] [] = None)
      else
        (case gemini_response w of
           OpenFails \<Rightarrow> True
         | Opened p r \<Rightarrow> gemini_loop env r (stopGeneration st \<or> p) draft0 = None))"

text \<open>
  \<^verbatim>\<open>handleFormSubmit\<close> gets as far as sending: no session is running, no recording is
  running, and there is a text or an attached file.
\<close>

definition submits :: "app_state \<Rightarrow> bool \<Rightarrow> string \<Rightarrow> bool" where
  "submits st isRecording inputValue =
     (\<not> isGenerating st \<and> \<not> isRecording \<and> (trim inputValue \<noteq> [] \<or> attachedFile st \<noteq> None))"

section \<open>Example sends\<close>

definition world :: "GeminiChunk opened \<Rightarrow> string opened \<Rightarrow> send_env" where
  "world g d =
     \<lparr>gemini_response = g, deepseek_response = d, startTime = 0, endTime = 1500,
      modelTimestamp = ''2025-01-01T00:00:02.000Z''\<rparr>"

definition two_texts :: "GeminiChunk list" where
  "two_texts = [gchunk ''Hel'' [] None, gchunk ''lo'' [] None]"

text \<open>The stop is pressed while the first chunk is awaited.\<close>

definition w_stop_first :: send_env where
  "w_stop_first = world (Opened False (Next True (gchunk ''Hel'' [] None) End)) OpenFails"

text \<open>The stream throws after two chunks.\<close>

definition w_fail :: send_env where
  "w_fail = world (Opened False (feed two_texts Fail)) OpenFails"

text \<open>The stream ends after two chunks.\<close>

definition w_ok :: send_env where
  "w_ok = world (Opened False (feed two_texts End)) OpenFails"

text \<open>
  A first message with a committed answer; then a new chat whose first send fails; then
  a click on the first conversation.
\<close>

definition s_first :: app_state where
  "s_first = handleFormSubmit example_env w_ok st_init False ''hello'' ''1'' ''t0''"

definition s_failed :: app_state where
  "s_failed = handleFormSubmit example_env w_fail (startNewChat s_first) False ''hi'' ''2'' ''t2''"

definition s_back :: app_state where
  "s_back = loadChat s_failed ''chat_1''"

section \<open>The catalog: pin, archive, delete and load\<close>

lemma update_first_cong_found:
  "find P xs = Some x \<Longrightarrow> f x = g x \<Longrightarrow> update_first P f xs = update_first P g xs"
  by (induction xs) (auto split: if_splits)

lemma update_first_twice:
  "find P xs = Some x \<Longrightarrow> P (f x) \<Longrightarrow> update_first P g (update_first P f xs) = update_first P (g \<circ> f) xs"
  by (induction xs) (auto split: if_splits)

lemma find_update_first:
  "find P xs = Some x \<Longrightarrow> P (f x) \<Longrightarrow> find P (update_first P f xs) = Some (f x)"
  by (induction xs) (auto split: if_splits)

lemma find_update_first_None:
  "find P xs = None \<Longrightarrow> update_first P f xs = xs"
  by (induction xs) (auto split: if_splits)

lemma chatIndex_loadChat [simp]: "chatIndex (loadChat st i) = chatIndex st"
  by (simp add: loadChat_def Let_def getStoredChat_def split: option.splits)

lemma chatIndex_startNewChat [simp]: "chatIndex (startNewChat st) = chatIndex st"
  by (simp add: startNewChat_def)

lemma chatIndex_activateNext [simp]: "chatIndex (activateNext st) = chatIndex st"
  by (simp add: activateNext_def split: option.splits)

lemma chatIndex_updateChatMetadata:
  "chatIndex (updateChatMetadata st i f) = update_first (\<lambda>c. item_id c = i) f (chatIndex st)"
  by (simp add: updateChatMetadata_def find_item_def saveChatIndex_def find_update_first_None
      split: option.splits)

lemma update_first_same_twice:
  assumes "find (\<lambda>c. item_id c = i) xs = Some item" and "\<And>c. item_id (f c) = item_id c"
    and "f (f item) = g item"
  shows "update_first (\<lambda>c. item_id c = i) f (update_first (\<lambda>c. item_id c = i) f xs)
         = update_first (\<lambda>c. item_id c = i) g xs"
  using assms by (induction xs) (auto split: if_splits)

lemma chatIndex_togglePin:
  "chatIndex (togglePin st i) = update_first (\<lambda>c. item_id c = i) pin_flip (chatIndex st)"
proof (cases "find_item (chatIndex st) i")
  case None
  then show ?thesis
    by (simp add: togglePin_def find_item_def find_update_first_None)
next
  case (Some item)
  then have f: "find (\<lambda>c. item_id c = i) (chatIndex st) = Some item"
    by (simp add: find_item_def)
  show ?thesis
    using Some
    by (simp add: togglePin_def Let_def chatIndex_updateChatMetadata
        update_first_same_twice[OF f, where g = pin_flip] pin_flip_def)
qed

lemma chatIndex_toggleArchive:
  "chatIndex (toggleArchive st i) = update_first (\<lambda>c. item_id c = i) archive_flip (chatIndex st)"
proof (cases "find_item (chatIndex st) i")
  case None
  then show ?thesis
    by (simp add: toggleArchive_def find_item_def find_update_first_None)
next
  case (Some item)
  then have f: "find (\<lambda>c. item_id c = i) (chatIndex st) = Some item"
    by (simp add: find_item_def)
  show ?thesis
    using Some
    by (simp add: toggleArchive_def Let_def chatIndex_updateChatMetadata
        update_first_same_twice[OF f, where g = archive_flip] archive_flip_def)
qed

lemma catalog_inv_archive_flip:
  "catalog_inv idx \<Longrightarrow> catalog_inv (update_first P archive_flip idx)"
  by (induction idx) (auto simp: catalog_inv_def archive_flip_def truthy_def)

lemma catalog_inv_pin_flip:
  "catalog_inv idx \<Longrightarrow>
   (case find P idx of None \<Rightarrow> True | Some item \<Rightarrow> \<not> truthy (archived item)) \<Longrightarrow>
   catalog_inv (update_first P pin_flip idx)"
  by (induction idx) (auto simp: catalog_inv_def pin_flip_def truthy_def)

lemma catalog_inv_apply_op:
  "catalog_inv (chatIndex st) \<Longrightarrow> pin_offered st x \<Longrightarrow> catalog_inv (chatIndex (apply_op st x))"
  by (cases x)
     (simp_all add: chatIndex_togglePin chatIndex_toggleArchive catalog_inv_archive_flip
        catalog_inv_pin_flip find_item_def)

lemma catalog_inv_run_ops:
  "catalog_inv (chatIndex st) \<Longrightarrow> pins_offered st ops \<Longrightarrow>
   list_all (\<lambda>s. catalog_inv (chatIndex s)) (run_ops st ops)"
  by (induction ops arbitrary: st) (simp_all add: catalog_inv_apply_op)

lemma find_filter: "find Q (filter P xs) = find (\<lambda>c. P c \<and> Q c) xs"
  by (induction xs) auto

lemma find_after_archive:
  "distinct (map item_id xs) \<Longrightarrow> find (\<lambda>c. item_id c = i) xs = Some item \<Longrightarrow>
   \<not> truthy (archived item) \<Longrightarrow>
   find (\<lambda>c. \<not> truthy (archived c)) (update_first (\<lambda>c. item_id c = i) archive_flip xs)
   = find (\<lambda>c. item_id c \<noteq> i \<and> \<not> truthy (archived c)) xs"
proof (induction xs)
  case Nil
  then show ?case by simp
next
  case (Cons x xs)
  show ?case
  proof (cases "item_id x = i")
    case True
    then have "x = item" using Cons.prems(2) by simp
    moreover have "\<forall>c \<in> set xs. item_id c \<noteq> i"
      using Cons.prems(1) True by (auto simp: image_iff)
    then have "find (\<lambda>c. \<not> truthy (archived c)) xs
               = find (\<lambda>c. item_id c \<noteq> i \<and> \<not> truthy (archived c)) xs"
      by (induction xs) auto
    ultimately show ?thesis
      using True Cons.prems(3) by (simp add: archive_flip_def truthy_def)
  next
    case False
    then show ?thesis using Cons by simp
  qed
qed

lemma map_id_update_first:
  "(\<And>c. g (f c) = g c) \<Longrightarrow> map g (update_first P f xs) = map g xs"
  by (induction xs) auto

lemma activated_activateNext:
  assumes "find (\<lambda>c. \<not> truthy (archived c)) (chatIndex st1) = nxt"
    and "\<And>n. nxt = Some n \<Longrightarrow> activeChatId st1 \<noteq> Some (item_id n)"
    and "\<And>n. nxt = Some n \<Longrightarrow> stored_chats st1 (item_id n) = stored_chats st (item_id n)"
  shows "activated st (activateNext st1) nxt"
  using assms
  by (cases nxt)
     (auto simp: activated_def activateNext_def startNewChat_def loadChat_def Let_def
        getStoredChat_def split: option.splits)

lemma find_pred: "find P xs = Some x \<Longrightarrow> P x"
  by (induction xs) (auto split: if_splits)

lemma deleteChat_active:
  assumes "activeChatId st = Some cid"
  shows "chatIndex (deleteChat st True cid) = filter (\<lambda>c. item_id c \<noteq> cid) (chatIndex st)"
    and "activated st (deleteChat st True cid) (first_remaining (chatIndex st) cid)"
proof -
  let ?st3 = "saveChatIndex (st\<lparr>stored_chats := (stored_chats st)(cid := None),
      chatIndex := filter (\<lambda>c. item_id c \<noteq> cid) (chatIndex st)\<rparr>)"
  have d: "deleteChat st True cid = activateNext ?st3"
    using assms by (simp add: deleteChat_def Let_def saveChatIndex_def)
  show "chatIndex (deleteChat st True cid) = filter (\<lambda>c. item_id c \<noteq> cid) (chatIndex st)"
    by (simp add: d) (simp add: saveChatIndex_def)
  have f: "find (\<lambda>c. \<not> truthy (archived c)) (chatIndex ?st3) = first_remaining (chatIndex st) cid"
    by (simp add: saveChatIndex_def find_filter first_remaining_def)
  show "activated st (deleteChat st True cid) (first_remaining (chatIndex st) cid)"
    unfolding d
  proof (rule activated_activateNext[OF f])
    fix n assume "first_remaining (chatIndex st) cid = Some n"
    then have n: "item_id n \<noteq> cid"
      unfolding first_remaining_def by (auto dest: find_pred)
    show "activeChatId ?st3 \<noteq> Some (item_id n)"
      using n assms by (simp add: saveChatIndex_def)
    show "stored_chats ?st3 (item_id n) = stored_chats st (item_id n)"
      using n by (simp add: saveChatIndex_def)
  qed
qed

lemma activeChatId_updateChatMetadata [simp]:
  "activeChatId (updateChatMetadata st i f) = activeChatId st"
  by (simp add: updateChatMetadata_def saveChatIndex_def split: option.splits)

lemma stored_chats_updateChatMetadata [simp]:
  "stored_chats (updateChatMetadata st i f) = stored_chats st"
  by (simp add: updateChatMetadata_def saveChatIndex_def split: option.splits)

lemma toggleArchive_active:
  assumes "activeChatId st = Some cid"
    and "distinct (map item_id (chatIndex st))"
    and "find_item (chatIndex st) cid = Some item"
    and "\<not> truthy (archived item)"
  shows "map item_id (chatIndex (toggleArchive st cid)) = map item_id (chatIndex st)"
    and "activated st (toggleArchive st cid) (first_remaining (chatIndex st) cid)"
proof -
  let ?upd = "\<lambda>c. c\<lparr>archived := Some True, pinned := Some False\<rparr>"
  let ?st2 = "updateChatMetadata
     (st\<lparr>chatIndex := update_first (\<lambda>c. item_id c = cid) ?upd (chatIndex st)\<rparr>) cid ?upd"
  have f0: "find (\<lambda>c. item_id c = cid) (chatIndex st) = Some item"
    using assms(3) by (simp add: find_item_def)
  show "map item_id (chatIndex (toggleArchive st cid)) = map item_id (chatIndex st)"
    by (simp add: chatIndex_toggleArchive map_id_update_first archive_flip_def)
  have d: "toggleArchive st cid = activateNext ?st2"
    using assms by (simp add: toggleArchive_def Let_def)
  have "chatIndex ?st2 = chatIndex (toggleArchive st cid)"
    by (simp add: d)
  then have f: "find (\<lambda>c. \<not> truthy (archived c)) (chatIndex ?st2) = first_remaining (chatIndex st) cid"
    using find_after_archive[OF assms(2) f0 assms(4)]
    by (simp add: chatIndex_toggleArchive first_remaining_def)
  show "activated st (toggleArchive st cid) (first_remaining (chatIndex st) cid)"
    unfolding d
  proof (rule activated_activateNext[OF f])
    fix n assume "first_remaining (chatIndex st) cid = Some n"
    then have n: "item_id n \<noteq> cid"
      unfolding first_remaining_def by (auto dest: find_pred)
    show "activeChatId ?st2 \<noteq> Some (item_id n)"
      using n assms(1) by simp
    show "stored_chats ?st2 (item_id n) = stored_chats st (item_id n)"
      by simp
  qed
qed

text \<open>
  Claim C5.  Deleting (with the confirmation given) or archiving the entry of the
  active conversation makes the first remaining entry that is not archived the active
  conversation, with the turns and settings stored for it; when no such entry remains,
  the result is a new conversation without id, with no turns, and the catalog gains no
  entry (deleting removes the entries of that id, archiving keeps the ids as they
  are).  For archiving, the ids of the catalog are distinct and the entry was not
  archived before the call.
\<close>

theorem C5_switch_on_archive_or_delete:
  "(activeChatId st = Some cid \<longrightarrow>
      chatIndex (deleteChat st True cid) = filter (\<lambda>c. item_id c \<noteq> cid) (chatIndex st) \<and>
      activated st (deleteChat st True cid) (first_remaining (chatIndex st) cid))
   \<and>
   (activeChatId st = Some cid \<and> distinct (map item_id (chatIndex st)) \<and>
    find_item (chatIndex st) cid = Some item \<and> \<not> truthy (archived item) \<longrightarrow>
      map item_id (chatIndex (toggleArchive st cid)) = map item_id (chatIndex st) \<and>
      activated st (toggleArchive st cid) (first_remaining (chatIndex st) cid))"
  using deleteChat_active toggleArchive_active by blast

lemma find_item_toggleArchive:
  "find_item (chatIndex st) i = Some item \<Longrightarrow> \<not> truthy (archived item) \<Longrightarrow>
   find_item (chatIndex (toggleArchive st i)) i
     = Some (item\<lparr>archived := Some True, pinned := Some False\<rparr>)"
  unfolding find_item_def chatIndex_toggleArchive
  by (subst find_update_first[where x = item])
     (auto simp: archive_flip_def dest: find_pred)

lemma find_item_togglePin:
  "find_item (chatIndex st) i = Some item \<Longrightarrow>
   find_item (chatIndex (togglePin st i)) i = Some (item\<lparr>pinned := Some (\<not> truthy (pinned item))\<rparr>)"
  unfolding find_item_def chatIndex_togglePin
  by (subst find_update_first[where x = item])
     (auto simp: pin_flip_def dest: find_pred)

text \<open>
  Claim C2, as the code has it.  From a catalog in which no archived entry is pinned,
  every sequence of \<^verbatim>\<open>togglePin\<close> and \<^verbatim>\<open>toggleArchive\<close> in which each \<^verbatim>\<open>togglePin\<close> meets
  an entry that is not archived keeps the invariant after each operation.
  \<^verbatim>\<open>toggleArchive\<close> on an entry that is not archived leaves it archived and not pinned.
  \<^verbatim>\<open>togglePin\<close> has no test of \<^verbatim>\<open>archived\<close>: it flips \<^verbatim>\<open>pinned\<close> of the entry it finds,
  archived or not.
\<close>

theorem C2_archived_never_pinned:
  "(catalog_inv (chatIndex st) \<and> pins_offered st ops \<longrightarrow>
      list_all (\<lambda>s. catalog_inv (chatIndex s)) (run_ops st ops))
   \<and> (find_item (chatIndex st) i = Some item \<and> \<not> truthy (archived item) \<longrightarrow>
        find_item (chatIndex (toggleArchive st i)) i
          = Some (item\<lparr>archived := Some True, pinned := Some False\<rparr>))
   \<and> (find_item (chatIndex st) i = Some item \<longrightarrow>
        find_item (chatIndex (togglePin st i)) i
          = Some (item\<lparr>pinned := Some (\<not> truthy (pinned item))\<rparr>))"
  using catalog_inv_run_ops find_item_toggleArchive find_item_togglePin by blast

lemmas ex_defs = st_one_def st_init_def entry_def turn_def

theorem C2_archived_never_pinned_witness:
  "catalog_inv (chatIndex st_one) \<and>
   pins_offered st_one [TogglePin ''chat_1'', ToggleArchive ''chat_1'', ToggleArchive ''chat_1''] \<and>
   find_item (chatIndex st_one) ''chat_1'' = Some (entry ''chat_1'' True False) \<and>
   \<not> truthy (archived (entry ''chat_1'' True False)) \<and>
   list_all (\<lambda>s. catalog_inv (chatIndex s))
     (run_ops st_one [TogglePin ''chat_1'', ToggleArchive ''chat_1'', ToggleArchive ''chat_1'']) \<and>
   find_item (chatIndex (toggleArchive st_one ''chat_1'')) ''chat_1''
     = Some (entry ''chat_1'' False True) \<and>
   find_item (chatIndex (togglePin st_one ''chat_1'')) ''chat_1''
     = Some (entry ''chat_1'' False False)"
proof -
  have h1: "catalog_inv (chatIndex st_one)"
    by (simp add: ex_defs catalog_inv_def truthy_def)
  have h2: "pins_offered st_one [TogglePin ''chat_1'', ToggleArchive ''chat_1'', ToggleArchive ''chat_1'']"
    by (simp add: ex_defs chatIndex_togglePin chatIndex_toggleArchive find_item_def truthy_def pin_flip_def archive_flip_def)
  have h3: "find_item (chatIndex st_one) ''chat_1'' = Some (entry ''chat_1'' True False)"
    by (simp add: ex_defs find_item_def)
  have h4: "\<not> truthy (archived (entry ''chat_1'' True False))"
    by (simp add: ex_defs truthy_def)
  show ?thesis
    using h1 h2 h3 h4
      C2_archived_never_pinned[of st_one
        "[TogglePin ''chat_1'', ToggleArchive ''chat_1'', ToggleArchive ''chat_1'']"
        "''chat_1''" "entry ''chat_1'' True False"]
    by (simp add: entry_def truthy_def)
qed

text \<open>
  Archive the one entry, then call \<^verbatim>\<open>togglePin\<close> on it: the call changes the catalog and
  leaves the entry archived and pinned.
\<close>

theorem C2_togglePin_archived_counterexample:
  "catalog_inv (chatIndex st_one) \<and>
   chatIndex (togglePin (toggleArchive st_one ''chat_1'') ''chat_1'')
     \<noteq> chatIndex (toggleArchive st_one ''chat_1'') \<and>
   \<not> catalog_inv (chatIndex (togglePin (toggleArchive st_one ''chat_1'') ''chat_1''))"
  by (simp add: ex_defs chatIndex_togglePin chatIndex_toggleArchive catalog_inv_def truthy_def
      pin_flip_def archive_flip_def)

theorem C5_switch_on_archive_or_delete_witness:
  "activeChatId st_two = Some ''chat_1'' \<and>
   distinct (map item_id (chatIndex st_two)) \<and>
   find_item (chatIndex st_two) ''chat_1'' = Some (entry ''chat_1'' False False) \<and>
   \<not> truthy (archived (entry ''chat_1'' False False)) \<and>
   first_remaining (chatIndex st_two) ''chat_1'' = Some (entry ''chat_2'' False False) \<and>
   chatIndex (deleteChat st_two True ''chat_1'') = [entry ''chat_2'' False False] \<and>
   activeChatId (deleteChat st_two True ''chat_1'') = Some ''chat_2'' \<and>
   chatHistoryArray (deleteChat st_two True ''chat_1'') = [turn SUser ''ping'', turn SModel ''pong''] \<and>
   map item_id (chatIndex (toggleArchive st_two ''chat_1'')) = [''chat_2'', ''chat_1''] \<and>
   activeChatId (toggleArchive st_two ''chat_1'') = Some ''chat_2'' \<and>
   chatHistoryArray (toggleArchive st_two ''chat_1'') = [turn SUser ''ping'', turn SModel ''pong'']"
proof -
  have h1: "activeChatId st_two = Some ''chat_1''"
    by (simp add: st_two_def)
  have h2: "distinct (map item_id (chatIndex st_two))"
    by (simp add: st_two_def entry_def)
  have h3: "find_item (chatIndex st_two) ''chat_1'' = Some (entry ''chat_1'' False False)"
    by (simp add: st_two_def entry_def find_item_def)
  have h4: "\<not> truthy (archived (entry ''chat_1'' False False))"
    by (simp add: entry_def truthy_def)
  have h5: "first_remaining (chatIndex st_two) ''chat_1'' = Some (entry ''chat_2'' False False)"
    by (simp add: st_two_def entry_def first_remaining_def truthy_def)
  have h6: "stored_chats st_two ''chat_2''
            = Some \<lparr>settings = defaultSettings\<lparr>model := Some DeepSeek\<rparr>,
                    messages = [turn SUser ''ping'', turn SModel ''pong'']\<rparr>"
    by (simp add: st_two_def)
  show ?thesis
    using h1 h2 h3 h4 h5
      C5_switch_on_archive_or_delete[of st_two "''chat_1''" "entry ''chat_1'' False False"]
    by (simp add: activated_def h6) (simp add: st_two_def entry_def)
qed


section \<open>The structured-stream session: commit, citations, statistics\<close>

lemma feed_append: "feed (xs @ ys) s = feed xs (feed ys s)"
  by (induction xs) simp_all

lemma prefixes_snoc:
  "list_all (\<lambda>k. P (take k (xs @ [x]))) [1..<Suc (length (xs @ [x]))]
   = (list_all (\<lambda>k. P (take k xs)) [1..<Suc (length xs)] \<and> P (xs @ [x]))"
  by (auto simp: list_all_iff)

lemma chunks_render_Nil [simp]: "chunks_render env full []"
  by (simp add: chunks_render_def)

lemma chunks_render_snoc:
  "chunks_render env full (cs @ [c])
   = (chunks_render env full cs \<and>
      marked_parse_returns env (full @ concat (map text_of (cs @ [c]))))"
  unfolding chunks_render_def
  by (rule prefixes_snoc[where P = "\<lambda>zs. marked_parse_returns env (full @ concat (map text_of zs))"])

lemma absorb_snoc:
  "absorb d (cs @ [c])
   = \<lparr>fullResponse = fullResponse (absorb d cs) @ text_of c, lastChunk = Some c,
      draftSources = draftSources (absorb d cs) @ sources_of c\<rparr>"
  by (simp add: absorb_def)

lemma gemini_loop_feed:
  "gemini_loop env (feed cs s) False d
   = (if chunks_render env (fullResponse d) cs then gemini_loop env s False (absorb d cs)
      else None)"
proof (induction cs arbitrary: s rule: rev_induct)
  case Nil
  show ?case by (cases d) (simp add: absorb_def)
next
  case (snoc c cs)
  have "gemini_loop env (feed (cs @ [c]) s) False d
        = gemini_loop env (feed cs (Next False c s)) False d"
    by (simp add: feed_append)
  also have "\<dots> = (if chunks_render env (fullResponse d) cs
                   then gemini_loop env (Next False c s) False (absorb d cs) else None)"
    by (rule snoc.IH)
  also have "\<dots> = (if chunks_render env (fullResponse d) (cs @ [c])
                   then gemini_loop env s False (absorb d (cs @ [c])) else None)"
    by (simp add: chunks_render_snoc absorb_snoc Let_def) (simp add: absorb_def)
  finally show ?case .
qed

lemma gemini_loop_stop: "gemini_loop env s True d = (if s = Fail then None else Some d)"
  by (cases s) simp_all

lemma chatHistoryArray_saveCurrentChat [simp]:
  "chatHistoryArray (saveCurrentChat st) = chatHistoryArray st"
  by (simp add: saveCurrentChat_def)

lemma chatHistoryArray_session_finally [simp]:
  "chatHistoryArray (session_finally st) = chatHistoryArray st"
  by (simp add: session_finally_def)

lemma gemini_commit:
  assumes "gemini_loop env result (stopGeneration st \<or> pressed) draft0 = Some d"
  shows "sendMessageWithGemini env st u f (Opened pressed result) t0 t1 ts
         = session_finally (saveCurrentChat
             (st\<lparr>isGenerating := True,
                 chatHistoryArray := chatHistoryArray st @ [gemini_message env d t0 t1 ts]\<rparr>))"
  using assms by (simp add: sendMessageWithGemini_def Let_def draft0_def gemini_message_def)

lemma gemini_commit_history:
  assumes "gemini_loop env result (stopGeneration st \<or> pressed) draft0 = Some d"
  shows "chatHistoryArray (sendMessageWithGemini env st u f (Opened pressed result) t0 t1 ts)
         = chatHistoryArray st @ [gemini_message env d t0 t1 ts]"
  by (simp add: gemini_commit[OF assms])

lemma gemini_abort:
  assumes "gemini_loop env result (stopGeneration st \<or> pressed) draft0 = None"
  shows "sendMessageWithGemini env st u f (Opened pressed result) t0 t1 ts
         = session_finally (st\<lparr>isGenerating := True\<rparr>)"
  using assms by (simp add: sendMessageWithGemini_def Let_def draft0_def)

lemma gemini_cancel_after:
  "\<not> stopGeneration st \<Longrightarrow> chunks_render env [] cs \<Longrightarrow>
   chatHistoryArray
     (sendMessageWithGemini env st u f (Opened False (feed cs (Next True c rest))) t0 t1 ts)
   = chatHistoryArray st @ [gemini_message env (absorb draft0 cs) t0 t1 ts]"
  by (rule gemini_commit_history) (simp add: gemini_loop_feed draft0_def)

lemma gemini_cancel_opening:
  "chatHistoryArray (sendMessageWithGemini env st u f (Opened True (Next p c rest)) t0 t1 ts)
   = chatHistoryArray st @ [gemini_message env draft0 t0 t1 ts]"
  by (rule gemini_commit_history) simp

lemma gemini_complete:
  "\<not> stopGeneration st \<Longrightarrow> chunks_render env [] cs \<Longrightarrow>
   chatHistoryArray (sendMessageWithGemini env st u f (Opened False (feed cs End)) t0 t1 ts)
   = chatHistoryArray st @ [gemini_message env (absorb draft0 cs) t0 t1 ts]"
  by (rule gemini_commit_history) (simp add: gemini_loop_feed draft0_def)

lemma gemini_render_throws:
  "\<not> stopGeneration st \<Longrightarrow> \<not> chunks_render env [] cs \<Longrightarrow>
   sendMessageWithGemini env st u f (Opened False (feed cs s)) t0 t1 ts
   = session_finally (st\<lparr>isGenerating := True\<rparr>)"
  by (rule gemini_abort) (simp add: gemini_loop_feed draft0_def)

lemma map_fst_map_set:
  "map fst (map_set m k v) = (if k \<in> fst ` set m then map fst m else map fst m @ [k])"
  by (induction m) (auto simp: rev_image_eqI)

lemma map_of_map_set:
  "map_of (map_set m k v) = (map_of m)(k \<mapsto> v)"
  by (induction m) (auto simp: fun_eq_iff)

lemma new_Map_snoc: "new_Map (es @ [(k, v)]) = map_set (new_Map es) k v"
  by (simp add: new_Map_def)

lemma first_seen_snoc:
  "first_seen (xs @ [k]) = (if k \<in> set xs then first_seen xs else first_seen xs @ [k])"
  by (simp add: first_seen_def)

lemma set_first_seen [simp]: "set (first_seen xs) = set xs"
  by (simp add: first_seen_def)

lemma distinct_first_seen [simp]: "distinct (first_seen xs)"
  by (simp add: first_seen_def)

lemma keys_new_Map: "map fst (new_Map es) = first_seen (map fst es)"
proof (induction es rule: rev_induct)
  case Nil
  then show ?case by (simp add: new_Map_def first_seen_def)
next
  case (snoc e es)
  obtain k v where e: "e = (k, v)" by (cases e)
  have "fst ` set (new_Map es) = set (map fst es)"
    using snoc by (metis set_first_seen set_map)
  then show ?case
    using snoc by (simp add: e new_Map_snoc map_fst_map_set first_seen_snoc)
qed

lemma map_of_new_Map: "map_of (new_Map es) = map_of (rev es)"
proof (induction es rule: rev_induct)
  case Nil
  then show ?case by (simp add: new_Map_def)
next
  case (snoc e es)
  obtain k v where e: "e = (k, v)" by (cases e)
  show ?case
    using snoc by (simp add: e new_Map_snoc map_of_map_set fun_eq_iff)
qed

lemma map_of_rev_keyed:
  "map_of (rev (map (\<lambda>item. (g item, item)) xs)) k = Some v \<Longrightarrow>
   v = last (filter (\<lambda>t. g t = k) xs) \<and> g v = k \<and> v \<in> set xs"
  by (induction xs rule: rev_induct) (auto split: if_splits)

lemma uniqueSources_uris: "map uri (uniqueSources gs) = first_seen (map uri gs)"
proof -
  let ?M = "new_Map (map (\<lambda>item. (uri item, item)) gs)"
  have d: "distinct (map fst ?M)"
    by (simp add: keys_new_Map)
  have "\<forall>(k, v) \<in> set ?M. uri v = k"
  proof safe
    fix k v assume "(k, v) \<in> set ?M"
    then have "map_of ?M k = Some v" using d by simp
    then have "map_of (rev (map (\<lambda>item. (uri item, item)) gs)) k = Some v"
      by (simp add: map_of_new_Map)
    from map_of_rev_keyed[OF this] show "uri v = k" by blast
  qed
  then have "map (uri \<circ> snd) ?M = map fst ?M"
    by (intro map_cong) auto
  then show ?thesis
    by (simp add: uniqueSources_def keys_new_Map comp_def)
qed

lemma uniqueSources_last:
  assumes "s \<in> set (uniqueSources gs)"
  shows "s = last (filter (\<lambda>t. uri t = uri s) gs)"
proof -
  let ?M = "new_Map (map (\<lambda>item. (uri item, item)) gs)"
  have d: "distinct (map fst ?M)"
    by (simp add: keys_new_Map)
  obtain k where "(k, s) \<in> set ?M"
    using assms by (auto simp: uniqueSources_def)
  then have "map_of ?M k = Some s" using d by simp
  then have "map_of (rev (map (\<lambda>item. (uri item, item)) gs)) k = Some s"
    by (simp add: map_of_new_Map)
  from map_of_rev_keyed[OF this]
  have "s = last (filter (\<lambda>t. uri t = k) gs)" and "uri s = k"
    by blast+
  then show ?thesis by (simp only:)
qed

section \<open>The text-delta session: lines, reads and deltas\<close>

lemma split_nl_nonempty [simp]: "split_nl s \<noteq> []"
  by (induction s) (auto split: list.splits)

lemma split_nl_append:
  "split_nl (a @ b) = butlast (split_nl a) @ split_nl (last (split_nl a) @ b)"
proof (induction a)
  case Nil
  then show ?case by simp
next
  case (Cons c a)
  show ?case
  proof (cases "c = CHR 0x0A")
    case True
    then show ?thesis using Cons by simp
  next
    case False
    obtain l ls where s: "split_nl a = l # ls"
      by (cases "split_nl a") auto
    show ?thesis
    proof (cases ls)
      case Nil
      then show ?thesis using False Cons s by simp
    next
      case (Cons l2 ls2)
      then show ?thesis using False Cons.IH s by simp
    qed
  qed
qed

lemma complete_lines_append:
  "complete_lines (a @ b) = complete_lines a @ complete_lines (last (split_nl a) @ b)"
  by (simp add: complete_lines_def split_nl_append[of a b] butlast_append)

lemma last_split_nl_append:
  "last (split_nl (a @ b)) = last (split_nl (last (split_nl a) @ b))"
  by (simp add: split_nl_append[of a b])

lemma split_nl_no_newline: "CHR 0x0A \<notin> set b \<Longrightarrow> split_nl b = [b]"
  by (induction b) auto

lemma last_split_nl_no_newline: "CHR 0x0A \<notin> set (last (split_nl s))"
  by (induction s) (auto split: list.splits)

lemma process_lines_append:
  "process_lines env (xs @ ys) f =
     (if fst (process_lines env xs f) then process_lines env xs f
      else process_lines env ys (snd (process_lines env xs f)))"
  by (induction xs arbitrary: f) (auto simp: Let_def split: option.splits)

lemma ds_run_stopped [simp]: "ds_run env vs True b f = (True, b, f)"
  by (cases vs) simp_all

lemma deepseek_loop_stopped [simp]: "deepseek_loop env s True b f = Some (b, f)"
  by (cases s) simp_all

lemma ds_run_append:
  "ds_run env (xs @ ys) stop b f =
     (case ds_run env xs stop b f of (stop', b', f') \<Rightarrow> ds_run env ys stop' b' f')"
proof (induction xs arbitrary: stop b f)
  case Nil
  then show ?case by simp
next
  case (Cons v vs)
  then show ?case
    by (cases stop) (simp_all add: Let_def split: prod.splits)
qed

lemma ds_run_lines:
  "CHR 0x0A \<notin> set b \<Longrightarrow> ds_run env vs False b f = (stop', b', f') \<Longrightarrow>
   process_lines env (complete_lines (b @ concat vs)) f = (stop', f')"
proof (induction vs arbitrary: b f)
  case Nil
  then show ?case
    by (simp add: complete_lines_def split_nl_no_newline)
next
  case (Cons v vs)
  let ?lines = "split_nl (b @ v)"
  obtain d f1 where p: "process_lines env (butlast ?lines) f = (d, f1)"
    by (cases "process_lines env (butlast ?lines) f")
  have c: "complete_lines (b @ v @ concat vs)
           = butlast ?lines @ complete_lines (last ?lines @ concat vs)"
    using complete_lines_append[of "b @ v" "concat vs"] by (simp add: complete_lines_def)
  show ?case
  proof (cases d)
    case True
    then have "(stop', f') = (True, f1)"
      using Cons.prems(2) p by (simp add: Let_def)
    then show ?thesis
      using True p by (simp add: c process_lines_append)
  next
    case False
    then have r: "ds_run env vs False (last ?lines) f1 = (stop', b', f')"
      using Cons.prems(2) p by (simp add: Let_def)
    have "process_lines env (complete_lines (last ?lines @ concat vs)) f1 = (stop', f')"
      by (rule Cons.IH[OF last_split_nl_no_newline r])
    then show ?thesis
      using False p by (simp add: c process_lines_append)
  qed
qed

lemma ds_run_decode:
  "ds_run env vs False [] [] = (stop', b', f') \<Longrightarrow> f' = decode env (concat vs)"
  using ds_run_lines[of "[]" env vs "[]" stop' b' f'] by (simp add: decode_def)

lemma reads_render_Nil [simp]: "reads_render env []"
  by (simp add: reads_render_def)

lemma reads_render_snoc:
  "reads_render env (vs @ [v])
   = (reads_render env vs \<and> marked_parse_returns env (decode env (concat (vs @ [v]))))"
  unfolding reads_render_def
  by (rule prefixes_snoc[where P = "\<lambda>zs. marked_parse_returns env (decode env (concat zs))"])

lemma reads_render_last:
  assumes "reads_render env vs" and "vs \<noteq> []"
  shows "marked_parse_returns env (decode env (concat vs))"
proof -
  obtain ys y where "vs = ys @ [y]"
    using assms(2) by (metis append_butlast_last_id)
  then show ?thesis
    using assms(1) by (simp only: reads_render_snoc)
qed

lemma ds_run_single:
  "ds_run env [v] False b f
   = (fst (process_lines env (butlast (split_nl (b @ v))) f), last (split_nl (b @ v)),
      snd (process_lines env (butlast (split_nl (b @ v))) f))"
  by (simp add: Let_def split: prod.splits)

lemma deepseek_loop_Next:
  "deepseek_loop env (Next p v s) False b f
   = (if marked_parse_returns env (snd (process_lines env (butlast (split_nl (b @ v))) f))
      then deepseek_loop env s (fst (process_lines env (butlast (split_nl (b @ v))) f) \<or> p)
             (last (split_nl (b @ v))) (snd (process_lines env (butlast (split_nl (b @ v))) f))
      else None)"
  by (simp add: Let_def split: prod.splits)

lemma deepseek_loop_feed:
  "deepseek_loop env (feed vs s) False [] [] =
     (if reads_render env vs
      then (case ds_run env vs False [] [] of (stop', b', f') \<Rightarrow> deepseek_loop env s stop' b' f')
      else None)"
proof (induction vs arbitrary: s rule: rev_induct)
  case Nil
  show ?case by simp
next
  case (snoc v vs)
  obtain s1 b1 f1 where r1: "ds_run env vs False [] [] = (s1, b1, f1)"
    by (cases "ds_run env vs False [] []") auto
  obtain s2 b2 f2 where r2: "ds_run env [v] s1 b1 f1 = (s2, b2, f2)"
    by (cases "ds_run env [v] s1 b1 f1") auto
  have r12: "ds_run env (vs @ [v]) False [] [] = (s2, b2, f2)"
    by (simp only: ds_run_append r1 r2 prod.case)
  have f1: "f1 = decode env (concat vs)"
    by (rule ds_run_decode[OF r1])
  have f2: "f2 = decode env (concat (vs @ [v]))"
    by (rule ds_run_decode[OF r12])
  have step: "deepseek_loop env (feed (vs @ [v]) s) False [] []
              = (if reads_render env vs then deepseek_loop env (Next False v s) s1 b1 f1 else None)"
    using snoc.IH[of "Next False v s"] by (simp add: feed_append r1)
  show ?case
  proof (cases "reads_render env vs")
    case False
    then show ?thesis
      by (simp add: step reads_render_snoc)
  next
    case True
    show ?thesis
    proof (cases s1)
      case True
      then have e: "s2 = True" "b2 = b1" "f2 = f1"
        using r2 by simp_all
      have "vs \<noteq> []"
        using r1 True by auto
      then have "marked_parse_returns env (decode env (concat vs))"
        using \<open>reads_render env vs\<close> by (rule reads_render_last[rotated])
      then have "reads_render env (vs @ [v])"
        using \<open>reads_render env vs\<close> f1 f2 e(3) by (simp add: reads_render_snoc)
      then show ?thesis
        using \<open>reads_render env vs\<close> True e by (simp add: step r12)
    next
      case False
      have r2': "(s2, b2, f2)
           = (fst (process_lines env (butlast (split_nl (b1 @ v))) f1), last (split_nl (b1 @ v)),
              snd (process_lines env (butlast (split_nl (b1 @ v))) f1))"
        using r2 False ds_run_single[of env v b1 f1] by simp
      then have e: "fst (process_lines env (butlast (split_nl (b1 @ v))) f1) = s2"
        "last (split_nl (b1 @ v)) = b2"
        "snd (process_lines env (butlast (split_nl (b1 @ v))) f1) = f2"
        by simp_all
      have s1F: "s1 = False"
        using False by simp
      have L: "deepseek_loop env (Next False v s) s1 b1 f1
            = (if marked_parse_returns env f2 then deepseek_loop env s s2 b2 f2 else None)"
        unfolding s1F by (simp only: deepseek_loop_Next e simp_thms)
      have R: "reads_render env (vs @ [v]) = marked_parse_returns env f2"
        unfolding reads_render_snoc f2 using \<open>reads_render env vs\<close> by simp
      show ?thesis
        unfolding step R r12 prod.case L using \<open>reads_render env vs\<close> by simp
    qed
  qed
qed

lemma deepseek_loop_result:
  "deepseek_loop env (feed vs End) False [] []
   = (if reads_render env vs
      then Some (fst (snd (ds_run env vs False [] [])), decode env (concat vs))
      else None)"
proof -
  obtain s b f where r: "ds_run env vs False [] [] = (s, b, f)"
    by (cases "ds_run env vs False [] []") auto
  show ?thesis
    using ds_run_decode[OF r] by (simp add: deepseek_loop_feed r)
qed

lemma deepseek_loop_press:
  "deepseek_loop env (Next True v rest) s b f = deepseek_loop env (Next False v End) s b f"
  by (cases s) (simp_all add: Let_def split: prod.splits)

lemma deepseek_loop_cancel_after:
  "deepseek_loop env (feed vs (Next True v rest)) False [] []
   = deepseek_loop env (feed (vs @ [v]) End) False [] []"
proof -
  have "deepseek_loop env (feed vs (Next True v rest)) False [] []
        = (if reads_render env vs
           then (case ds_run env vs False [] [] of
                   (stop', b', f') \<Rightarrow> deepseek_loop env (Next True v rest) stop' b' f')
           else None)"
    by (rule deepseek_loop_feed)
  also have "\<dots> = (if reads_render env vs
           then (case ds_run env vs False [] [] of
                   (stop', b', f') \<Rightarrow> deepseek_loop env (Next False v End) stop' b' f')
           else None)"
    by (simp only: deepseek_loop_press)
  also have "\<dots> = deepseek_loop env (feed vs (Next False v End)) False [] []"
    by (rule deepseek_loop_feed[symmetric])
  also have "\<dots> = deepseek_loop env (feed (vs @ [v]) End) False [] []"
    by (simp add: feed_append)
  finally show ?thesis .
qed

lemma deepseek_commit:
  assumes "deepseek_loop env reader (stopGeneration st \<or> pressed) [] [] = Some (b, txt)"
  shows "sendMessageWithDeepSeek env st u None (Opened pressed reader) ts
         = session_finally (saveCurrentChat
             (st\<lparr>isGenerating := True,
                 chatHistoryArray := chatHistoryArray st @ [deepseek_message txt ts]\<rparr>))"
  using assms by (simp add: sendMessageWithDeepSeek_def Let_def deepseek_message_def)

lemma deepseek_abort:
  assumes "deepseek_loop env reader (stopGeneration st \<or> pressed) [] [] = None"
  shows "sendMessageWithDeepSeek env st u None (Opened pressed reader) ts
         = session_finally (st\<lparr>isGenerating := True\<rparr>)"
  using assms by (simp add: sendMessageWithDeepSeek_def Let_def)

lemma deepseek_complete:
  assumes "\<not> stopGeneration st" and "reads_render env vs"
  shows "sendMessageWithDeepSeek env st u None (Opened False (feed vs End)) ts
         = session_finally (saveCurrentChat
             (st\<lparr>isGenerating := True,
                 chatHistoryArray := chatHistoryArray st
                    @ [deepseek_message (decode env (concat vs)) ts]\<rparr>))"
  using assms by (intro deepseek_commit) (simp add: deepseek_loop_result)

lemma deepseek_cancel_after:
  assumes "\<not> stopGeneration st" and "reads_render env (vs @ [v])"
  shows "sendMessageWithDeepSeek env st u None (Opened False (feed vs (Next True v rest))) ts
         = session_finally (saveCurrentChat
             (st\<lparr>isGenerating := True,
                 chatHistoryArray := chatHistoryArray st
                    @ [deepseek_message (decode env (concat (vs @ [v]))) ts]\<rparr>))"
  using assms
  by (intro deepseek_commit) (simp add: deepseek_loop_cancel_after deepseek_loop_result)

lemma deepseek_render_throws:
  assumes "\<not> stopGeneration st" and "\<not> reads_render env vs"
  shows "sendMessageWithDeepSeek env st u None (Opened False (feed vs s)) ts
         = session_finally (st\<lparr>isGenerating := True\<rparr>)"
  using assms by (intro deepseek_abort) (simp add: deepseek_loop_feed)

lemma deepseek_cancel_opening:
  "sendMessageWithDeepSeek env st u None (Opened True reader) ts
   = session_finally (saveCurrentChat
       (st\<lparr>isGenerating := True,
           chatHistoryArray := chatHistoryArray st @ [deepseek_message [] ts]\<rparr>))"
  by (intro deepseek_commit) simp

lemma append_value_append: "append_value env f v = f @ append_value env [] v"
  by (simp add: append_value_def)

lemma process_lines_deltas:
  "process_lines env ls f =
     (list_ex is_done ls,
      f @ concat (List.map_filter (record_delta env) (takeWhile (\<lambda>l. \<not> is_done l) ls)))"
proof (induction ls arbitrary: f)
  case Nil
  then show ?case by simp
next
  case (Cons l ls)
  show ?case
  proof (cases "is_done l")
    case True
    then show ?thesis
      by (simp add: is_done_def is_record_def payload_def)
  next
    case False
    then show ?thesis
      using Cons[of f] Cons[of "append_value env f (the (textChunk (the (JSON_parse env (payload l)))))"]
      by (auto simp: is_done_def is_record_def payload_def record_delta_def
            Let_def append_value_append[of env f]
          split: option.splits)
  qed
qed

lemma decode_deltas:
  "decode env t = concat (List.map_filter (record_delta env)
                    (takeWhile (\<lambda>l. \<not> is_done l) (complete_lines t)))"
  by (simp add: decode_def process_lines_deltas)

lemma record_delta_malformed: "malformed env m \<Longrightarrow> record_delta env m = None \<and> \<not> is_done m"
  by (simp add: malformed_def record_delta_def is_done_def)

lemma process_lines_skip_malformed:
  assumes "malformed env m"
  shows "process_lines env (ls1 @ m # ls2) f = process_lines env (ls1 @ ls2) f"
proof (induction ls1 arbitrary: f)
  case Nil
  then show ?case
    using assms by (simp add: malformed_def is_record_def payload_def)
next
  case (Cons l ls1)
  then show ?case
    by (simp add: Let_def split: option.splits)
qed

lemma last_gemini_complete:
  "\<not> stopGeneration st \<Longrightarrow> chunks_render env [] cs \<Longrightarrow>
   last (chatHistoryArray
     (sendMessageWithGemini env st u f (Opened False (feed cs End)) t0 t1 ts))
   = gemini_message env (absorb draft0 cs) t0 t1 ts"
  by (simp add: gemini_complete)

lemma example_chunks_render:
  "CHR ''|'' \<notin> set (full @ concat (map text_of cs)) \<Longrightarrow> chunks_render example_env full cs"
  by (auto simp: chunks_render_def list_all_iff example_env_def dest: in_set_takeD)

lemma reads_render_1:
  "reads_render env [a] = marked_parse_returns env (decode env a)"
  using reads_render_snoc[of env "[]" a] by simp

lemma reads_render_2:
  "reads_render env [a, b]
   = (marked_parse_returns env (decode env a) \<and> marked_parse_returns env (decode env (a @ b)))"
  using reads_render_snoc[of env "[a]" b] by (simp add: reads_render_1)

lemma reads_render_3:
  "reads_render env [a, b, c]
   = (marked_parse_returns env (decode env a) \<and> marked_parse_returns env (decode env (a @ b)) \<and>
      marked_parse_returns env (decode env (a @ b @ c)))"
  using reads_render_snoc[of env "[a, b]" c] by (simp add: reads_render_2)

lemmas frame_defs = frame_def frame_prefix_def frame_suffix_def quoted_def nl_def

lemmas decode_defs = decode_def complete_lines_def trim_def is_ws_def example_env_def
  example_parse_def Let_def textChunk_def delta_json_def get_prop_def index0_def opt_chain_def
  falsy_def append_value_def

text \<open>
  Claim C7.  The model turn committed at the end of a stream (every rendering of the
  draft having returned) carries the citations of all chunks, deduplicated by uri: the
  uris are those of the chunks in the order of their first occurrence, each once, and
  the citation kept for a uri is the last one streamed with that uri.  The citations
  a/X, a/Y, b/Z yield exactly a/Y, b/Z.
\<close>

theorem C7_citations_deduplicated:
  "(\<not> stopGeneration st \<and> chunks_render env [] cs \<longrightarrow>
      groundingSources
        (last (chatHistoryArray
           (sendMessageWithGemini env st u f (Opened False (feed cs End)) t0 t1 ts)))
      = Some (uniqueSources (concat (map sources_of cs))))
   \<and> map uri (uniqueSources gs) = first_seen (map uri gs)
   \<and> (\<forall>s \<in> set (uniqueSources gs). s = last (filter (\<lambda>t. uri t = uri s) gs))
   \<and> uniqueSources [cite ''a'' ''X'', cite ''a'' ''Y'', cite ''b'' ''Z'']
       = [cite ''a'' ''Y'', cite ''b'' ''Z'']"
proof -
  have "uniqueSources [cite ''a'' ''X'', cite ''a'' ''Y'', cite ''b'' ''Z'']
        = [cite ''a'' ''Y'', cite ''b'' ''Z'']"
    by (simp add: uniqueSources_def new_Map_def cite_def)
  then show ?thesis
    using uniqueSources_uris uniqueSources_last
    by (simp add: last_gemini_complete gemini_message_def absorb_def draft0_def)
qed

theorem C7_citations_deduplicated_witness:
  "\<not> stopGeneration st_init \<and> chunks_render example_env [] three_cites \<and>
   groundingSources
     (last (chatHistoryArray
        (sendMessageWithGemini example_env st_init ''hi'' None
           (Opened False (feed three_cites End)) 0 1500 ''t'')))
   = Some [cite ''a'' ''Y'', cite ''b'' ''Z''] \<and>
   map uri (uniqueSources [cite ''a'' ''X'', cite ''a'' ''Y'', cite ''b'' ''Z'']) = [''a'', ''b''] \<and>
   cite ''a'' ''Y'' \<in> set (uniqueSources [cite ''a'' ''X'', cite ''a'' ''Y'', cite ''b'' ''Z'']) \<and>
   cite ''a'' ''Y''
     = last (filter (\<lambda>t. uri t = ''a'') [cite ''a'' ''X'', cite ''a'' ''Y'', cite ''b'' ''Z''])"
proof -
  have h: "\<not> stopGeneration st_init"
    by (simp add: st_init_def)
  have r: "chunks_render example_env [] three_cites"
    by (rule example_chunks_render) (simp add: three_cites_def gchunk_def text_of_def)
  have g: "concat (map sources_of three_cites) = [cite ''a'' ''X'', cite ''a'' ''Y'', cite ''b'' ''Z'']"
    by (simp add: three_cites_def gchunk_def sources_of_def)
  show ?thesis
    using h r C7_citations_deduplicated[of st_init example_env three_cites "''hi''" None 0 1500
        "''t''" "[cite ''a'' ''X'', cite ''a'' ''Y'', cite ''b'' ''Z'']"]
    by (simp add: g first_seen_def) (simp add: cite_def)
qed

lemma elapsedSeconds_equal: "elapsedSeconds env t t = Num 0"
  by (simp add: elapsedSeconds_def js_sub_def js_div_def js_negative_def js_infinite_def
      js_is_zero_def signed_zero_def)

lemma js_div_by_zero:
  "x > 0 \<Longrightarrow> js_div rnd (Num x) (Num 0) = PosInfinity"
  "js_div rnd (Num 0) (Num 0) = NaN"
  by (simp_all add: js_div_def js_negative_def js_infinite_def js_is_zero_def
      signed_infinity_def)

lemma js_div_zero_tokens:
  "e \<noteq> NaN \<Longrightarrow> \<not> js_is_zero e \<Longrightarrow> js_is_zero (js_div rnd (Num 0) e)"
  by (cases e)
     (simp_all add: js_div_def js_infinite_def js_is_zero_def signed_zero_def js_negative_def
        Let_def)

lemma js_div_finite:
  "x > 0 \<Longrightarrow> y \<noteq> 0 \<Longrightarrow> js_div rnd (Num x) (Num y) = rnd (x / y)"
  by (simp add: js_div_def js_infinite_def js_is_zero_def)

lemma stats_gemini_message:
  "stats (gemini_message env (absorb draft0 cs) t0 t1 ts)
   = Some \<lparr>tokenCount = tokens_of cs,
           speed = js_div (to_double env) (Num (real (tokens_of cs))) (elapsedSeconds env t0 t1)\<rparr>"
  by (simp add: gemini_message_def gemini_stats_def absorb_def draft0_def tokens_of_def
      elapsedSeconds_def Let_def split: option.splits)

text \<open>
  Claim C8, as the code has it.  On normal completion of the structured-stream session
  (every rendering of the draft having returned) the committed model turn has
  \<open>tokenCount\<close> equal to the total token count of the last chunk, 0 when it is absent,
  and \<open>speed\<close> equal to the quotient of that count and the elapsed seconds in the
  arithmetic of doubles: the rounded quotient when the count is positive and the
  elapsed seconds are a finite number that is not zero, a zero when the count is 0 and
  the elapsed seconds are a number that is not zero.  The code has no guard for
  elapsed seconds of zero: with two equal readings of the clock the speed is
  \<open>Infinity\<close> for a positive count and \<open>NaN\<close> for 0.  The turn that the text-delta
  session commits has no stats.
\<close>

theorem C8_stats_of_completed_session:
  "(\<not> stopGeneration st \<and> chunks_render env [] cs \<longrightarrow>
     (let m = last (chatHistoryArray
                (sendMessageWithGemini env st u f (Opened False (feed cs End)) t0 t1 ts));
          n = tokens_of cs;
          e = elapsedSeconds env t0 t1
      in stats m \<noteq> None \<and>
         tokenCount (the (stats m)) = n \<and>
         speed (the (stats m)) = js_div (to_double env) (Num (real n)) e \<and>
         (t1 = t0 \<longrightarrow> e = Num 0) \<and>
         (t1 = t0 \<and> n > 0 \<longrightarrow> speed (the (stats m)) = PosInfinity) \<and>
         (t1 = t0 \<and> n = 0 \<longrightarrow> speed (the (stats m)) = NaN) \<and>
         (n = 0 \<and> e \<noteq> NaN \<and> \<not> js_is_zero e \<longrightarrow> js_is_zero (speed (the (stats m)))) \<and>
         (\<forall>y. n > 0 \<and> e = Num y \<and> y \<noteq> 0 \<longrightarrow>
              speed (the (stats m)) = to_double env (real n / y))))
   \<and> (\<not> stopGeneration st \<and> reads_render env vs \<longrightarrow>
        stats (last (chatHistoryArray
          (sendMessageWithDeepSeek env st u None (Opened False (feed vs End)) ts'))) = None)"
proof -
  have A: "\<not> stopGeneration st \<and> reads_render env vs \<longrightarrow>
        stats (last (chatHistoryArray
          (sendMessageWithDeepSeek env st u None (Opened False (feed vs End)) ts'))) = None"
    by (simp add: deepseek_complete deepseek_message_def)
  show ?thesis
    using A
    by (auto simp: Let_def last_gemini_complete stats_gemini_message elapsedSeconds_equal
        js_div_by_zero js_div_finite js_div_zero_tokens)
qed

theorem C8_stats_of_completed_session_witness:
  "\<not> stopGeneration st_init \<and> chunks_render example_env [] three_cites \<and>
   chunks_render example_env [] [] \<and> reads_render example_env [frame ''Hel'' @ nl] \<and>
   tokens_of three_cites = 42 \<and> tokens_of [] = 0 \<and> elapsedSeconds example_env 0 1500 = Num (3 / 2) \<and>
   speed (the (stats (last (chatHistoryArray
     (sendMessageWithGemini example_env st_init ''hi'' None
        (Opened False (feed three_cites End)) 0 1500 ''t'')))))
     = Num 28 \<and>
   js_is_zero (speed (the (stats (last (chatHistoryArray
     (sendMessageWithGemini example_env st_init ''hi'' None
        (Opened False (feed [] End)) 0 1500 ''t'')))))) \<and>
   speed (the (stats (last (chatHistoryArray
     (sendMessageWithGemini example_env st_init ''hi'' None
        (Opened False (feed three_cites End)) 7 7 ''t'')))))
     = PosInfinity \<and>
   speed (the (stats (last (chatHistoryArray
     (sendMessageWithGemini example_env st_init ''hi'' None
        (Opened False (feed [] End)) 7 7 ''t'')))))
     = NaN \<and>
   stats (last (chatHistoryArray
     (sendMessageWithDeepSeek example_env st_init ''hi'' None
        (Opened False (feed [frame ''Hel'' @ nl] End)) ''t''))) = None"
proof -
  have h: "\<not> stopGeneration st_init"
    by (simp add: st_init_def)
  have r3: "chunks_render example_env [] three_cites"
    by (rule example_chunks_render) (simp add: three_cites_def gchunk_def text_of_def)
  have r0: "chunks_render example_env [] []"
    by simp
  have rd: "reads_render example_env [frame ''Hel'' @ nl]"
    unfolding reads_render_1 by (simp add: decode_defs frame_defs)
  have t3: "tokens_of three_cites = 42"
    by (simp add: tokens_of_def three_cites_def gchunk_def)
  have t0: "tokens_of [] = 0"
    by (simp add: tokens_of_def)
  have e: "elapsedSeconds example_env 0 1500 = Num (3 / 2)"
    by (simp add: elapsedSeconds_def js_sub_def js_div_def js_negative_def js_infinite_def
        js_is_zero_def example_env_def)
  have rn: "to_double example_env = Num"
    by (simp add: example_env_def)
  note T1 = C8_stats_of_completed_session[where st = st_init and env = example_env and cs = three_cites
      and u = "''hi''" and f = None and ?t0.0 = 0 and ?t1.0 = 1500 and ts = "''t''"
      and vs = "[frame ''Hel'' @ nl]" and ts' = "''t''", unfolded Let_def t3 e rn]
  note T2 = C8_stats_of_completed_session[where st = st_init and env = example_env and cs = "[]"
      and u = "''hi''" and f = None and ?t0.0 = 0 and ?t1.0 = 1500 and ts = "''t''"
      and vs = "[frame ''Hel'' @ nl]" and ts' = "''t''", unfolded Let_def t0 e rn]
  note T3 = C8_stats_of_completed_session[where st = st_init and env = example_env and cs = three_cites
      and u = "''hi''" and f = None and ?t0.0 = 7 and ?t1.0 = 7 and ts = "''t''"
      and vs = "[frame ''Hel'' @ nl]" and ts' = "''t''", unfolded Let_def t3]
  note T4 = C8_stats_of_completed_session[where st = st_init and env = example_env and cs = "[]"
      and u = "''hi''" and f = None and ?t0.0 = 7 and ?t1.0 = 7 and ts = "''t''"
      and vs = "[frame ''Hel'' @ nl]" and ts' = "''t''", unfolded Let_def t0]
  have a: "speed (the (stats (last (chatHistoryArray
     (sendMessageWithGemini example_env st_init ''hi'' None
        (Opened False (feed three_cites End)) 0 1500 ''t''))))) = Num 28"
    using T1 h r3 by (simp add: js_div_finite)
  have b: "js_is_zero (speed (the (stats (last (chatHistoryArray
     (sendMessageWithGemini example_env st_init ''hi'' None
        (Opened False (feed [] End)) 0 1500 ''t''))))))"
  proof -
    have "Num (3 / 2) \<noteq> NaN" and "\<not> js_is_zero (Num (3 / 2))"
      by (simp_all add: js_is_zero_def)
    then show ?thesis
      using T2 h r0 by blast
  qed
  have c: "speed (the (stats (last (chatHistoryArray
     (sendMessageWithGemini example_env st_init ''hi'' None
        (Opened False (feed three_cites End)) 7 7 ''t''))))) = PosInfinity"
  proof -
    have "(0::nat) < 42"
      by simp
    then show ?thesis
      using T3 h r3 by blast
  qed
  have d: "speed (the (stats (last (chatHistoryArray
     (sendMessageWithGemini example_env st_init ''hi'' None
        (Opened False (feed [] End)) 7 7 ''t''))))) = NaN"
    using T4 h r0 by blast
  have s: "stats (last (chatHistoryArray
     (sendMessageWithDeepSeek example_env st_init ''hi'' None
        (Opened False (feed [frame ''Hel'' @ nl] End)) ''t''))) = None"
    using T1 h rd by blast
  show ?thesis
    using h r3 r0 rd t3 t0 e a b c d s by simp
qed

text \<open>
  A stream that reports 42 tokens and two equal readings of the clock: the speed of
  the committed turn is \<open>Infinity\<close>, not 42, and not finite.
\<close>

theorem C8_zero_elapsed_counterexample:
  "tokenCount (the (stats (last (chatHistoryArray
     (sendMessageWithGemini example_env st_init ''hi'' None
        (Opened False (feed three_cites End)) 7 7 ''t''))))) = 42 \<and>
   speed (the (stats (last (chatHistoryArray
     (sendMessageWithGemini example_env st_init ''hi'' None
        (Opened False (feed three_cites End)) 7 7 ''t'')))))
     = PosInfinity \<and>
   speed (the (stats (last (chatHistoryArray
     (sendMessageWithGemini example_env st_init ''hi'' None
        (Opened False (feed three_cites End)) 7 7 ''t'')))))
     \<noteq> Num 42 \<and>
   \<not> is_finite (speed (the (stats (last (chatHistoryArray
     (sendMessageWithGemini example_env st_init ''hi'' None
        (Opened False (feed three_cites End)) 7 7 ''t''))))))"
proof -
  have h: "\<not> stopGeneration st_init"
    by (simp add: st_init_def)
  have r3: "chunks_render example_env [] three_cites"
    by (rule example_chunks_render) (simp add: three_cites_def gchunk_def text_of_def)
  have t3: "tokens_of three_cites = 42"
    by (simp add: tokens_of_def three_cites_def gchunk_def)
  have m: "last (chatHistoryArray
     (sendMessageWithGemini example_env st_init ''hi'' None
        (Opened False (feed three_cites End)) 7 7 ''t''))
     = gemini_message example_env (absorb draft0 three_cites) 7 7 ''t''"
    by (rule last_gemini_complete[OF h r3])
  show ?thesis
    unfolding m stats_gemini_message
    by (simp add: t3 elapsedSeconds_equal js_div_by_zero is_finite_def)
qed

section \<open>The text-delta session: split reads, the sentinel, malformed records\<close>

lemma committed_append:
  "chatHistoryArray st' = chatHistoryArray st @ [m] \<Longrightarrow> sender m = SModel \<Longrightarrow>
   committed st st' (content m)"
  by (simp add: committed_def)

lemma committed_deepseek:
  "committed st (session_finally (saveCurrentChat
       (st\<lparr>isGenerating := True,
           chatHistoryArray := chatHistoryArray st @ [deepseek_message txt ts]\<rparr>))) txt"
  by (simp add: committed_def deepseek_message_def)

lemma split_nl_line:
  "CHR 0x0A \<notin> set l \<Longrightarrow> split_nl (l @ CHR 0x0A # post) = l # split_nl post"
  by (induction l) auto

lemma last_split_nl_terminated:
  assumes "pre = [] \<or> last pre = CHR 0x0A"
  shows "last (split_nl pre) = []"
proof (cases "pre = []")
  case True
  then show ?thesis by simp
next
  case False
  then obtain q where q: "pre = q @ [CHR 0x0A]"
    using assms by (metis append_butlast_last_id)
  have "split_nl (last (split_nl q) @ [CHR 0x0A]) = [last (split_nl q), []]"
    using split_nl_line[OF last_split_nl_no_newline, of q "[]"] by simp
  then show ?thesis
    by (simp add: q split_nl_append[of q "[CHR 0x0A]"])
qed

lemma complete_lines_line:
  assumes "pre = [] \<or> last pre = CHR 0x0A" and "CHR 0x0A \<notin> set l"
  shows "complete_lines (pre @ l @ CHR 0x0A # post) = complete_lines pre @ l # complete_lines post"
    and "complete_lines (pre @ post) = complete_lines pre @ complete_lines post"
  using assms complete_lines_append[of pre "l @ CHR 0x0A # post"] complete_lines_append[of pre post]
  by (simp_all add: last_split_nl_terminated) (simp add: complete_lines_def split_nl_line)

lemma decode_done:
  assumes "is_done l" and "CHR 0x0A \<notin> set l" and "pre = [] \<or> last pre = CHR 0x0A"
  shows "decode env (pre @ l @ CHR 0x0A # post) = decode env pre"
  using assms(1)
  by (simp add: decode_deltas complete_lines_line(1)[OF assms(3) assms(2)] takeWhile_tail)

lemma decode_skip_malformed:
  assumes "malformed env m" and "CHR 0x0A \<notin> set m" and "pre = [] \<or> last pre = CHR 0x0A"
  shows "decode env (pre @ m @ CHR 0x0A # post) = decode env (pre @ post)"
proof -
  have L: "complete_lines (pre @ m @ CHR 0x0A # post) = complete_lines pre @ m # complete_lines post"
    by (rule complete_lines_line(1)[OF assms(3) assms(2)])
  have R: "complete_lines (pre @ post) = complete_lines pre @ complete_lines post"
    by (rule complete_lines_line(2)[OF assms(3) assms(2)])
  show ?thesis
    unfolding decode_def L R by (simp add: process_lines_skip_malformed[OF assms(1)])
qed

lemma deepseek_loop_text:
  "map_option snd (deepseek_loop env (feed vs End) False [] [])
   = (if reads_render env vs then Some (decode env (concat vs)) else None)"
  by (simp add: deepseek_loop_result)

lemma committed_deepseek_complete:
  "\<not> stopGeneration st \<Longrightarrow> reads_render env vs \<Longrightarrow>
   committed st (sendMessageWithDeepSeek env st u None (Opened False (feed vs End)) ts)
     (decode env (concat vs))"
  by (simp add: deepseek_complete committed_deepseek)

text \<open>
  Claim C4.  For every list of reads \<open>vs\<close>, whatever the cuts, the loop of the session
  either throws, which it does exactly when one of its renderings of the draft
  throws, or ends with the decoding of the complete lines of the unsplit input as the
  accumulated text; the text after the last newline is never decoded.  A session
  whose stream ends without a stop pressed and whose renderings return commits that
  text, and reaches the same state as the session that gets the input in one read.
  When the input holds a line whose payload is \<^verbatim>\<open>[DONE]\<close>, the committed text is the
  decoding of the input before that line, whatever follows it.  When a rendering
  throws, nothing is committed.
\<close>

theorem C4_reads_split_anywhere:
  "map_option snd (deepseek_loop env (feed vs End) False [] [])
     = (if reads_render env vs then Some (decode env (concat vs)) else None)
   \<and> (\<not> stopGeneration st \<and> reads_render env vs \<longrightarrow>
        committed st (sendMessageWithDeepSeek env st u None (Opened False (feed vs End)) ts)
          (decode env (concat vs)))
   \<and> (\<not> stopGeneration st \<and> reads_render env vs \<and> reads_render env [concat vs] \<longrightarrow>
        sendMessageWithDeepSeek env st u None (Opened False (feed vs End)) ts
          = sendMessageWithDeepSeek env st u None (Opened False (feed [concat vs] End)) ts)
   \<and> (\<not> stopGeneration st \<and> reads_render env vs \<and> is_done l \<and> CHR 0x0A \<notin> set l \<and>
       (pre = [] \<or> last pre = CHR 0x0A) \<and> concat vs = pre @ l @ CHR 0x0A # post \<longrightarrow>
        committed st (sendMessageWithDeepSeek env st u None (Opened False (feed vs End)) ts)
          (decode env pre))
   \<and> (\<not> stopGeneration st \<and> \<not> reads_render env vs \<longrightarrow>
        chatHistoryArray
          (sendMessageWithDeepSeek env st u None (Opened False (feed vs End)) ts)
        = chatHistoryArray st)"
proof -
  have b: "sendMessageWithDeepSeek env st u None (Opened False (feed vs End)) ts
        = sendMessageWithDeepSeek env st u None (Opened False (feed [concat vs] End)) ts"
    if n: "\<not> stopGeneration st" and r: "reads_render env vs" and r1: "reads_render env [concat vs]"
  proof -
    have e1: "sendMessageWithDeepSeek env st u None (Opened False (feed vs End)) ts
          = session_finally (saveCurrentChat
             (st\<lparr>isGenerating := True,
                 chatHistoryArray := chatHistoryArray st
                    @ [deepseek_message (decode env (concat vs)) ts]\<rparr>))"
      by (rule deepseek_complete[OF n r])
    have e2: "sendMessageWithDeepSeek env st u None (Opened False (feed [concat vs] End)) ts
          = session_finally (saveCurrentChat
             (st\<lparr>isGenerating := True,
                 chatHistoryArray := chatHistoryArray st
                    @ [deepseek_message (decode env (concat [concat vs])) ts]\<rparr>))"
      by (rule deepseek_complete[OF n r1])
    show ?thesis
      unfolding e1 e2 by simp
  qed
  have c: "chatHistoryArray
          (sendMessageWithDeepSeek env st u None (Opened False (feed vs End)) ts)
        = chatHistoryArray st"
    if n: "\<not> stopGeneration st" and r: "\<not> reads_render env vs"
    unfolding deepseek_render_throws[OF n r] by (simp add: session_finally_def)
  show ?thesis
    using deepseek_loop_text[of env vs] committed_deepseek_complete[of st env vs u ts] b c
      decode_done[of l pre env post]
    by auto
qed

theorem C4_reads_split_anywhere_witness:
  "\<not> stopGeneration st_init \<and> reads_render example_env split_reads \<and>
   reads_render example_env [concat split_reads] \<and>
   is_done done_line \<and> CHR 0x0A \<notin> set done_line \<and>
   last stream_text = CHR 0x0A \<and>
   concat split_reads = stream_text @ done_line @ CHR 0x0A # frame ''XX'' @ nl @ ''data: '' \<and>
   decode example_env stream_text = ''Hello'' \<and>
   committed st_init
     (sendMessageWithDeepSeek example_env st_init ''hi'' None (Opened False (feed split_reads End)) ''t'')
     ''Hello'' \<and>
   sendMessageWithDeepSeek example_env st_init ''hi'' None (Opened False (feed split_reads End)) ''t''
     = sendMessageWithDeepSeek example_env st_init ''hi'' None
         (Opened False (feed [concat split_reads] End)) ''t'' \<and>
   \<not> reads_render example_env [frame ''a|b'' @ nl] \<and>
   chatHistoryArray
     (sendMessageWithDeepSeek example_env st_init ''hi'' None
        (Opened False (feed [frame ''a|b'' @ nl] End)) ''t'')
   = chatHistoryArray st_init"
proof -
  have h1: "\<not> stopGeneration st_init"
    by (simp add: st_init_def)
  have h2: "is_done done_line"
    by (simp add: is_done_def is_record_def payload_def done_line_def trim_def is_ws_def)
  have h3: "CHR 0x0A \<notin> set done_line"
    by (simp add: done_line_def)
  have h4: "last stream_text = CHR 0x0A"
    by (simp add: stream_text_def nl_def)
  have h5: "concat split_reads = stream_text @ done_line @ CHR 0x0A # frame ''XX'' @ nl @ ''data: ''"
    by (simp add: split_reads_def stream_text_def done_line_def frame_def nl_def)
  have h6: "decode example_env stream_text = ''Hello''"
    by (simp add: decode_defs frame_defs stream_text_def)
  have p1: "decode example_env (''data: '' @ frame_prefix @ ''He'') = []"
    by (simp add: decode_defs frame_defs)
  have p2: "decode example_env ((''data: '' @ frame_prefix @ ''He'')
              @ ''l'' @ frame_suffix @ nl @ frame ''lo'' @ nl @ ''data: [DO'') = ''Hello''"
    by (simp add: decode_defs frame_defs)
  have p3: "decode example_env (concat split_reads) = ''Hello''"
    unfolding h5 decode_done[OF h2 h3 disjI2[OF h4]] by (rule h6)
  have m: "marked_parse_returns example_env [] \<and> marked_parse_returns example_env ''Hello''"
    by (simp add: example_env_def)
  have r: "reads_render example_env split_reads"
    unfolding split_reads_def reads_render_3 p1 p2
    using p3 m by (simp add: split_reads_def)
  have r1: "reads_render example_env [concat split_reads]"
    unfolding reads_render_1 p3 using m by simp
  have bad: "decode example_env (frame ''a|b'' @ nl) = ''a|b''"
    by (simp add: decode_defs frame_defs)
  have r2: "\<not> reads_render example_env [frame ''a|b'' @ nl]"
    unfolding reads_render_1 bad by (simp add: example_env_def)
  note T = C4_reads_split_anywhere[where st = st_init and env = example_env and u = "''hi''"
      and vs = split_reads and ts = "''t''" and l = done_line and pre = stream_text
      and post = "frame ''XX'' @ nl @ ''data: ''"]
  note T2 = C4_reads_split_anywhere[where st = st_init and env = example_env and u = "''hi''"
      and vs = "[frame ''a|b'' @ nl]" and ts = "''t''"]
  have c1: "sendMessageWithDeepSeek example_env st_init ''hi'' None
              (Opened False (feed split_reads End)) ''t''
            = sendMessageWithDeepSeek example_env st_init ''hi'' None
                (Opened False (feed [concat split_reads] End)) ''t''"
    using T h1 r r1 by blast
  have "committed st_init
     (sendMessageWithDeepSeek example_env st_init ''hi'' None (Opened False (feed split_reads End)) ''t'')
     (decode example_env stream_text)"
    using T h1 r h2 h3 h4 h5 by blast
  then have c2: "committed st_init
     (sendMessageWithDeepSeek example_env st_init ''hi'' None (Opened False (feed split_reads End)) ''t'')
     ''Hello''"
    unfolding h6 .
  have c3: "chatHistoryArray
     (sendMessageWithDeepSeek example_env st_init ''hi'' None
        (Opened False (feed [frame ''a|b'' @ nl] End)) ''t'')
   = chatHistoryArray st_init"
    using T2 h1 r2 by blast
  show ?thesis
    using h1 r r1 h2 h3 h4 h5 h6 c1 c2 r2 c3 by blast
qed

text \<open>
  Claim C9.  For every list of reads, the loop of the session throws exactly when one
  of its renderings of the draft throws, never for a record on which \<^verbatim>\<open>JSON.parse\<close>
  throws; otherwise the accumulated text is the concatenation of the deltas of the
  records among the complete lines before the sentinel, and a session whose stream
  ends without a stop pressed commits it.  A record on which \<^verbatim>\<open>JSON.parse\<close> throws has
  no delta: a malformed record line put anywhere between lines of the input leaves
  the decoded text as it is without that line.
\<close>

theorem C9_malformed_records_skipped:
  "map_option snd (deepseek_loop env (feed vs End) False [] [])
     = (if reads_render env vs
        then Some (concat (List.map_filter (record_delta env)
               (takeWhile (\<lambda>l. \<not> is_done l) (complete_lines (concat vs)))))
        else None)
   \<and> (\<not> stopGeneration st \<and> reads_render env vs \<longrightarrow>
      committed st (sendMessageWithDeepSeek env st u None (Opened False (feed vs End)) ts)
        (concat (List.map_filter (record_delta env)
           (takeWhile (\<lambda>l. \<not> is_done l) (complete_lines (concat vs))))))
   \<and> (malformed env m \<and> CHR 0x0A \<notin> set m \<and> (pre = [] \<or> last pre = CHR 0x0A) \<longrightarrow>
        decode env (pre @ m @ CHR 0x0A # post) = decode env (pre @ post))"
  using deepseek_loop_text[of env vs] committed_deepseek_complete[of st env vs u ts]
    decode_skip_malformed[of env m pre post]
  by (auto simp: decode_deltas)

theorem C9_malformed_records_skipped_witness:
  "\<not> stopGeneration st_init \<and> reads_render example_env noisy_reads \<and>
   malformed example_env bad_line \<and> CHR 0x0A \<notin> set bad_line \<and>
   last (frame ''Hel'' @ nl) = CHR 0x0A \<and>
   concat noisy_reads = (frame ''Hel'' @ nl) @ bad_line @ CHR 0x0A # frame ''lo'' @ nl \<and>
   decode example_env ((frame ''Hel'' @ nl) @ frame ''lo'' @ nl) = ''Hello'' \<and>
   decode example_env (concat noisy_reads) = ''Hello'' \<and>
   committed st_init
     (sendMessageWithDeepSeek example_env st_init ''hi'' None (Opened False (feed noisy_reads End)) ''t'')
     ''Hello''"
proof -
  have h1: "\<not> stopGeneration st_init"
    by (simp add: st_init_def)
  have h2: "malformed example_env bad_line"
    by (simp add: malformed_def is_record_def payload_def bad_line_def quoted_def trim_def
        is_ws_def example_env_def example_parse_def frame_prefix_def frame_suffix_def Let_def)
  have h3: "CHR 0x0A \<notin> set bad_line"
    by (simp add: bad_line_def quoted_def)
  have h4: "last (frame ''Hel'' @ nl) = CHR 0x0A"
    by (simp add: nl_def)
  have h5: "concat noisy_reads = (frame ''Hel'' @ nl) @ bad_line @ CHR 0x0A # frame ''lo'' @ nl"
    by (simp add: noisy_reads_def nl_def)
  have h6: "decode example_env ((frame ''Hel'' @ nl) @ frame ''lo'' @ nl) = ''Hello''"
    by (simp add: decode_defs frame_defs)
  note T = C9_malformed_records_skipped[where st = st_init and env = example_env and u = "''hi''"
      and vs = noisy_reads and ts = "''t''" and m = bad_line and pre = "frame ''Hel'' @ nl"
      and post = "frame ''lo'' @ nl"]
  have d: "decode example_env (concat noisy_reads) = ''Hello''"
    using T h2 h3 h4 unfolding h5 h6 by blast
  have p1: "decode example_env (frame ''Hel'' @ nl @ bad_line) = ''Hel''"
    by (simp add: decode_defs frame_defs bad_line_def)
  have p2: "decode example_env ((frame ''Hel'' @ nl @ bad_line) @ nl @ frame ''lo'') = ''Hel''"
    by (simp add: decode_defs frame_defs bad_line_def)
  have m: "marked_parse_returns example_env ''Hel'' \<and> marked_parse_returns example_env ''Hello''"
    by (simp add: example_env_def)
  have r: "reads_render example_env noisy_reads"
    unfolding noisy_reads_def reads_render_3 p1 p2
    using d m by (simp add: noisy_reads_def)
  have "committed st_init
     (sendMessageWithDeepSeek example_env st_init ''hi'' None (Opened False (feed noisy_reads End)) ''t'')
     (decode example_env (concat noisy_reads))"
    using T h1 r unfolding decode_deltas by blast
  then have c: "committed st_init
     (sendMessageWithDeepSeek example_env st_init ''hi'' None (Opened False (feed noisy_reads End)) ''t'')
     ''Hello''"
    unfolding d .
  show ?thesis
    using h1 r h2 h3 h4 h5 h6 d c by blast
qed

section \<open>Cancelled sessions\<close>

lemma committed_gemini:
  "chatHistoryArray st' = chatHistoryArray st @ [gemini_message env d t0 t1 ts] \<Longrightarrow>
   committed st st' (fullResponse d)"
  by (simp add: committed_def gemini_message_def)

lemma deepseek_cancel_render_throws:
  assumes "\<not> stopGeneration st" and "\<not> reads_render env (vs @ [v])"
  shows "sendMessageWithDeepSeek env st u None (Opened False (feed vs (Next True v rest))) ts
         = session_finally (st\<lparr>isGenerating := True\<rparr>)"
  using assms
  by (intro deepseek_abort) (simp add: deepseek_loop_cancel_after deepseek_loop_result)

text \<open>
  Claim C1, as the code has it.  A session in which the stop is observed, every
  rendering of the draft before it having returned, commits a model turn with exactly
  the text accumulated so far, after the turns that were there: for the structured
  stream, the texts of the chunks received before the chunk at which the stop is
  observed; for the text-delta stream, the decoding of the reads up to and including
  the one during which the stop was pressed.  Neither session tests the draft for
  being empty: a stop observed before any text has accumulated (at the first chunk,
  or pressed while the transport was opening) commits a model turn with empty
  content.  When a rendering of the draft throws before the stop is observed, the
  session commits nothing.
\<close>

theorem C1_cancelled_session_commits_draft:
  "(\<not> stopGeneration st \<and> chunks_render env [] cs \<longrightarrow>
      committed st
        (sendMessageWithGemini env st u f (Opened False (feed cs (Next True c rest))) t0 t1 ts)
        (concat (map text_of cs)))
   \<and> (\<not> stopGeneration st \<and> reads_render env (vs @ [v]) \<longrightarrow>
      committed st
        (sendMessageWithDeepSeek env st u None (Opened False (feed vs (Next True v rest'))) ts)
        (decode env (concat (vs @ [v]))))
   \<and> committed st (sendMessageWithGemini env st u f (Opened True (Next p c rest)) t0 t1 ts) []
   \<and> committed st (sendMessageWithDeepSeek env st u None (Opened True reader) ts) []
   \<and> (\<not> stopGeneration st \<and> \<not> chunks_render env [] cs \<longrightarrow>
        chatHistoryArray
          (sendMessageWithGemini env st u f (Opened False (feed cs (Next True c rest))) t0 t1 ts)
        = chatHistoryArray st)
   \<and> (\<not> stopGeneration st \<and> \<not> reads_render env (vs @ [v]) \<longrightarrow>
        chatHistoryArray
          (sendMessageWithDeepSeek env st u None (Opened False (feed vs (Next True v rest'))) ts)
        = chatHistoryArray st)"
proof -
  have a: "committed st
        (sendMessageWithGemini env st u f (Opened False (feed cs (Next True c rest))) t0 t1 ts)
        (concat (map text_of cs))"
    if n: "\<not> stopGeneration st" and r: "chunks_render env [] cs"
    using committed_gemini[OF gemini_cancel_after[OF n r, of u f c rest t0 t1 ts]]
    by (simp add: absorb_def draft0_def)
  have b: "committed st
        (sendMessageWithDeepSeek env st u None (Opened False (feed vs (Next True v rest'))) ts)
        (decode env (concat (vs @ [v])))"
    if n: "\<not> stopGeneration st" and r: "reads_render env (vs @ [v])"
    unfolding deepseek_cancel_after[OF n r] by (rule committed_deepseek)
  have c: "committed st (sendMessageWithGemini env st u f (Opened True (Next p c rest)) t0 t1 ts) []"
    using committed_gemini[OF gemini_cancel_opening[of env st u f p c rest t0 t1 ts]]
    by (simp add: draft0_def)
  have d: "committed st (sendMessageWithDeepSeek env st u None (Opened True reader) ts) []"
    unfolding deepseek_cancel_opening by (rule committed_deepseek)
  have e: "chatHistoryArray
          (sendMessageWithGemini env st u f (Opened False (feed cs (Next True c rest))) t0 t1 ts)
        = chatHistoryArray st"
    if n: "\<not> stopGeneration st" and r: "\<not> chunks_render env [] cs"
    unfolding gemini_render_throws[OF n r] by (simp add: session_finally_def)
  have g: "chatHistoryArray
          (sendMessageWithDeepSeek env st u None (Opened False (feed vs (Next True v rest'))) ts)
        = chatHistoryArray st"
    if n: "\<not> stopGeneration st" and r: "\<not> reads_render env (vs @ [v])"
    unfolding deepseek_cancel_render_throws[OF n r] by (simp add: session_finally_def)
  show ?thesis
    using a b c d e g by blast
qed

theorem C1_cancelled_session_commits_draft_witness:
  "\<not> stopGeneration st_two \<and> chunks_render example_env [] two_texts \<and>
   reads_render example_env ([frame ''Hel'' @ nl] @ [frame ''lo'' @ nl]) \<and>
   \<not> chunks_render example_env [] [gchunk ''a|b'' [] None] \<and>
   \<not> reads_render example_env ([] @ [frame ''a|b'' @ nl]) \<and>
   committed st_two
     (sendMessageWithGemini example_env st_two ''more'' None
        (Opened False (feed two_texts (Next True (gchunk ''!'' [] None) End))) 0 1500 ''t'')
     ''Hello'' \<and>
   committed st_two
     (sendMessageWithDeepSeek example_env st_two ''more'' None
        (Opened False (feed [frame ''Hel'' @ nl] (Next True (frame ''lo'' @ nl) Fail))) ''t'')
     ''Hello'' \<and>
   committed st_two
     (sendMessageWithGemini example_env st_two ''more'' None
        (Opened False (feed [] (Next True (gchunk ''Hel'' [] None) End))) 0 1500 ''t'')
     [] \<and>
   chatHistoryArray
     (sendMessageWithGemini example_env st_two ''more'' None
        (Opened False (feed [gchunk ''a|b'' [] None] (Next True (gchunk ''!'' [] None) End)))
        0 1500 ''t'')
   = chatHistoryArray st_two \<and>
   chatHistoryArray
     (sendMessageWithDeepSeek example_env st_two ''more'' None
        (Opened False (feed [] (Next True (frame ''a|b'' @ nl) End))) ''t'')
   = chatHistoryArray st_two"
proof -
  have h: "\<not> stopGeneration st_two"
    by (simp add: st_two_def st_init_def)
  have t: "concat (map text_of two_texts) = ''Hello''"
    by (simp add: two_texts_def gchunk_def text_of_def)
  have r: "chunks_render example_env [] two_texts"
    by (rule example_chunks_render) (simp add: two_texts_def gchunk_def text_of_def)
  have r0: "chunks_render example_env [] []"
    by simp
  have p1: "decode example_env (frame ''Hel'' @ nl) = ''Hel''"
    by (simp add: decode_defs frame_defs)
  have p2: "decode example_env ((frame ''Hel'' @ nl) @ frame ''lo'' @ nl) = ''Hello''"
    by (simp add: decode_defs frame_defs)
  have d: "decode example_env (concat ([frame ''Hel'' @ nl] @ [frame ''lo'' @ nl])) = ''Hello''"
    using p2 by simp
  have rr: "reads_render example_env ([frame ''Hel'' @ nl] @ [frame ''lo'' @ nl])"
    using p1 p2 by (simp add: reads_render_2 example_env_def)
  have nr: "\<not> chunks_render example_env [] [gchunk ''a|b'' [] None]"
    using chunks_render_snoc[of example_env "[]" "[]" "gchunk ''a|b'' [] None"]
    by (simp add: gchunk_def text_of_def example_env_def)
  have bad: "decode example_env (frame ''a|b'' @ nl) = ''a|b''"
    by (simp add: decode_defs frame_defs)
  have nrr: "\<not> reads_render example_env ([] @ [frame ''a|b'' @ nl])"
    using bad by (simp add: reads_render_1 example_env_def)
  note T1 = C1_cancelled_session_commits_draft[where st = st_two and env = example_env
      and u = "''more''" and f = None and cs = two_texts and c = "gchunk ''!'' [] None"
      and rest = End and ?t0.0 = 0 and ?t1.0 = 1500 and ts = "''t''"
      and vs = "[frame ''Hel'' @ nl]" and v = "frame ''lo'' @ nl" and rest' = Fail]
  note T2 = C1_cancelled_session_commits_draft[where st = st_two and env = example_env
      and u = "''more''" and f = None and cs = "[]" and c = "gchunk ''Hel'' [] None"
      and rest = End and ?t0.0 = 0 and ?t1.0 = 1500 and ts = "''t''"]
  note T3 = C1_cancelled_session_commits_draft[where st = st_two and env = example_env
      and u = "''more''" and f = None and cs = "[gchunk ''a|b'' [] None]"
      and c = "gchunk ''!'' [] None" and rest = End and ?t0.0 = 0 and ?t1.0 = 1500
      and ts = "''t''" and vs = "[]" and v = "frame ''a|b'' @ nl" and rest' = End]
  have a: "committed st_two
     (sendMessageWithGemini example_env st_two ''more'' None
        (Opened False (feed two_texts (Next True (gchunk ''!'' [] None) End))) 0 1500 ''t'')
     ''Hello''"
    using T1 h r unfolding t by blast
  have b: "committed st_two
     (sendMessageWithDeepSeek example_env st_two ''more'' None
        (Opened False (feed [frame ''Hel'' @ nl] (Next True (frame ''lo'' @ nl) Fail))) ''t'')
     ''Hello''"
    using T1 h rr unfolding d by blast
  have "committed st_two
     (sendMessageWithGemini example_env st_two ''more'' None
        (Opened False (feed [] (Next True (gchunk ''Hel'' [] None) End))) 0 1500 ''t'')
     (concat (map text_of []))"
    using T2 h r0 by blast
  then have c: "committed st_two
     (sendMessageWithGemini example_env st_two ''more'' None
        (Opened False (feed [] (Next True (gchunk ''Hel'' [] None) End))) 0 1500 ''t'')
     []"
    by simp
  have e: "chatHistoryArray
     (sendMessageWithGemini example_env st_two ''more'' None
        (Opened False (feed [gchunk ''a|b'' [] None] (Next True (gchunk ''!'' [] None) End)))
        0 1500 ''t'')
   = chatHistoryArray st_two"
    using T3 h nr by blast
  have g: "chatHistoryArray
     (sendMessageWithDeepSeek example_env st_two ''more'' None
        (Opened False (feed [] (Next True (frame ''a|b'' @ nl) End))) ''t'')
   = chatHistoryArray st_two"
    using T3 h nrr by blast
  show ?thesis
    using h r rr nr nrr a b c e g by blast
qed

text \<open>
  A first message sent from the initial state, the stop pressed while the first chunk
  is awaited: the turns after the send are the user turn and a model turn with empty
  content.
\<close>

theorem C1_stop_before_text_counterexample:
  "chatHistoryArray st_init = [] \<and>
   length (chatHistoryArray
     (handleFormSubmit example_env w_stop_first st_init False ''hi'' ''1700000000000'' ''t0'')) = 2 \<and>
   sender (last (chatHistoryArray
     (handleFormSubmit example_env w_stop_first st_init False ''hi'' ''1700000000000'' ''t0''))) = SModel \<and>
   content (last (chatHistoryArray
     (handleFormSubmit example_env w_stop_first st_init False ''hi'' ''1700000000000'' ''t0''))) = []"
  by (simp add: handleFormSubmit_def beforeSend_def st_init_def w_stop_first_def world_def
      trim_def is_ws_def Let_def assignChatId_def truthy_str_def saveChatIndex_def userMessageForHistory_def
      sendMessage_def defaultSettings_def sendMessageWithGemini_def gchunk_def
      saveCurrentChat_def session_finally_def clearAttachedFile_def)


section \<open>Editing a user turn\<close>

text \<open>
  Claim C6, as the code has it.  The Save handler of the editor trims the new text and
  changes the store only when the trimmed text is not empty and differs from the
  content of the turn: then the turn at \<open>index\<close> has the trimmed text as its content,
  the turns before it are as they were, every turn after it is discarded (the length
  is \<open>index + 1\<close>), and the request for the trimmed text is re-issued.  Otherwise the
  store is left as it is.  The handler does not look at the role of the turn.
\<close>

theorem C6_edit_replaces_and_truncates:
  "index < length (chatHistoryArray st) \<longrightarrow>
     (trim v \<noteq> [] \<and> trim v \<noteq> content (chatHistoryArray st ! index) \<longrightarrow>
        (case handleEdit_save st index v of
           Some (st', req) \<Rightarrow>
             length (chatHistoryArray st') = index + 1 \<and>
             content (chatHistoryArray st' ! index) = trim v \<and>
             take index (chatHistoryArray st') = take index (chatHistoryArray st) \<and>
             req = Some (trim v, msg_file (chatHistoryArray st ! index))
         | None \<Rightarrow> False)) \<and>
     (trim v = [] \<or> trim v = content (chatHistoryArray st ! index) \<longrightarrow>
        handleEdit_save st index v = Some (st, None))"
  by (auto simp: handleEdit_save_def Let_def nth_append min_def)

theorem C6_edit_replaces_and_truncates_witness:
  "(0::nat) < length (chatHistoryArray st_two) \<and>
   trim ''  hello again  '' = ''hello again'' \<and>
   trim ''  hello again  '' \<noteq> content (chatHistoryArray st_two ! 0) \<and>
   trim ''hello'' = content (chatHistoryArray st_two ! 0) \<and>
   map content (chatHistoryArray (fst (the (handleEdit_save st_two 0 ''  hello again  ''))))
     = [''hello again''] \<and>
   handleEdit_save st_two 0 ''hello'' = Some (st_two, None)"
proof -
  have h1: "(0::nat) < length (chatHistoryArray st_two)"
    by (simp add: st_two_def)
  have h2: "trim ''  hello again  '' = ''hello again''"
    by (simp add: trim_def is_ws_def)
  have h3: "trim ''  hello again  '' \<noteq> content (chatHistoryArray st_two ! 0)"
    by (simp add: h2) (simp add: st_two_def turn_def)
  have h4: "trim ''hello'' = content (chatHistoryArray st_two ! 0)"
    by (simp add: trim_def is_ws_def st_two_def turn_def)
  note T1 = C6_edit_replaces_and_truncates[of 0 st_two "''  hello again  ''"]
  note T2 = C6_edit_replaces_and_truncates[of 0 st_two "''hello''"]
  obtain st' req where r: "handleEdit_save st_two 0 ''  hello again  '' = Some (st', req)"
    and l: "length (chatHistoryArray st') = 1"
    and c: "content (chatHistoryArray st' ! 0) = ''hello again''"
    using T1 h1 h3 by (auto simp: h2 split: option.splits)
  obtain m where "chatHistoryArray st' = [m]"
    using l by (cases "chatHistoryArray st'") auto
  then have a: "map content (chatHistoryArray (fst (the (handleEdit_save st_two 0 ''  hello again  ''))))
     = [''hello again'']"
    using r c by simp
  have b: "handleEdit_save st_two 0 ''hello'' = Some (st_two, None)"
    using T2 h1 h4 by blast
  show ?thesis
    using h1 h2 h3 h4 a b by blast
qed

text \<open>
  Saving the text of the user turn unchanged: the model turn after it stays, and the
  length is 2, not 1.
\<close>

theorem C6_unchanged_text_counterexample:
  "sender (chatHistoryArray st_two ! 0) = SUser \<and>
   handleEdit_save st_two 0 ''hello'' = Some (st_two, None) \<and>
   length (chatHistoryArray st_two) = 2 \<and>
   length (chatHistoryArray (fst (the (handleEdit_save st_two 0 ''hello'')))) \<noteq> 0 + 1"
  by (simp add: handleEdit_save_def Let_def st_two_def st_init_def turn_def trim_def is_ws_def)

section \<open>A send and the persisted conversation\<close>

lemma activeChatId_assignChatId: "truthy_str (activeChatId (assignChatId st um now))"
  by (simp add: assignChatId_def Let_def saveChatIndex_def truthy_str_def)

lemma assignChatId_frame:
  "chatHistoryArray (assignChatId st um now) = chatHistoryArray st"
  "stored_chats (assignChatId st um now) = stored_chats st"
  "currentSettings (assignChatId st um now) = currentSettings st"
  "attachedFile (assignChatId st um now) = attachedFile st"
  "stopGeneration (assignChatId st um now) = stopGeneration st"
  by (simp_all add: assignChatId_def Let_def saveChatIndex_def)

lemma gemini_session_cases:
  assumes "truthy_str (activeChatId s)"
  shows "(chatHistoryArray (sendMessageWithGemini env s um fl g t0 t1 ts) = chatHistoryArray s \<and>
          stored_chats (sendMessageWithGemini env s um fl g t0 t1 ts) = stored_chats s) \<or>
         (\<exists>m. sender m = SModel \<and>
           chatHistoryArray (sendMessageWithGemini env s um fl g t0 t1 ts) = chatHistoryArray s @ [m] \<and>
           stored_chats (sendMessageWithGemini env s um fl g t0 t1 ts)
             = (stored_chats s)(the (activeChatId s) \<mapsto>
                 \<lparr>settings = currentSettings s, messages = chatHistoryArray s @ [m]\<rparr>))"
  using assms
  by (auto simp: sendMessageWithGemini_def Let_def saveCurrentChat_def session_finally_def
      split: opened.splits option.splits)

lemma gemini_session_throws:
  assumes "(case g of OpenFails \<Rightarrow> True
            | Opened p r \<Rightarrow> gemini_loop env r (stopGeneration s \<or> p) draft0 = None)"
  shows "chatHistoryArray (sendMessageWithGemini env s um fl g t0 t1 ts) = chatHistoryArray s \<and>
         stored_chats (sendMessageWithGemini env s um fl g t0 t1 ts) = stored_chats s"
  using assms
  by (auto simp: sendMessageWithGemini_def Let_def session_finally_def draft0_def
      split: opened.splits)

lemma gemini_session_frame:
  "activeChatId (sendMessageWithGemini env s um fl g t0 t1 ts) = activeChatId s"
  by (auto simp: sendMessageWithGemini_def Let_def saveCurrentChat_def session_finally_def
      split: opened.splits option.splits)

lemma deepseek_session_cases:
  assumes "truthy_str (activeChatId s)"
  shows "(chatHistoryArray (sendMessageWithDeepSeek env s um fl g ts) = chatHistoryArray s \<and>
          stored_chats (sendMessageWithDeepSeek env s um fl g ts) = stored_chats s) \<or>
         (\<exists>m. sender m = SModel \<and>
           chatHistoryArray (sendMessageWithDeepSeek env s um fl g ts) = chatHistoryArray s @ [m] \<and>
           stored_chats (sendMessageWithDeepSeek env s um fl g ts)
             = (stored_chats s)(the (activeChatId s) \<mapsto>
                 \<lparr>settings = currentSettings s, messages = chatHistoryArray s @ [m]\<rparr>))"
  using assms
  by (auto simp: sendMessageWithDeepSeek_def Let_def saveCurrentChat_def session_finally_def
      clearAttachedFile_def split: opened.splits option.splits)

lemma deepseek_session_throws:
  assumes "(case g of OpenFails \<Rightarrow> True
            | Opened p r \<Rightarrow> deepseek_loop env r (stopGeneration s \<or> p) [] [] = None)"
  shows "chatHistoryArray (sendMessageWithDeepSeek env s um fl g ts) = chatHistoryArray s \<and>
         stored_chats (sendMessageWithDeepSeek env s um fl g ts) = stored_chats s"
  using assms
  by (auto simp: sendMessageWithDeepSeek_def Let_def session_finally_def clearAttachedFile_def
      split: opened.splits)

lemma deepseek_session_frame:
  "activeChatId (sendMessageWithDeepSeek env s um fl g ts) = activeChatId s"
  by (auto simp: sendMessageWithDeepSeek_def Let_def saveCurrentChat_def session_finally_def
      clearAttachedFile_def split: opened.splits option.splits)

lemma sendMessage_cases:
  assumes "truthy_str (activeChatId s)"
  shows "(chatHistoryArray (sendMessage env w s um fl) = chatHistoryArray s \<and>
          stored_chats (sendMessage env w s um fl) = stored_chats s) \<or>
         (\<exists>m. sender m = SModel \<and>
           chatHistoryArray (sendMessage env w s um fl) = chatHistoryArray s @ [m] \<and>
           stored_chats (sendMessage env w s um fl)
             = (stored_chats s)(the (activeChatId s) \<mapsto>
                 \<lparr>settings = currentSettings s, messages = chatHistoryArray s @ [m]\<rparr>))"
  unfolding sendMessage_def
  using gemini_session_cases[OF assms] deepseek_session_cases[OF assms]
  by (simp split: if_splits)

lemma sendMessage_throws:
  assumes "session_throws env w s"
  shows "chatHistoryArray (sendMessage env w s um fl) = chatHistoryArray s \<and>
         stored_chats (sendMessage env w s um fl) = stored_chats s"
proof (cases "selected_model s = DeepSeek")
  case True
  then show ?thesis
    using assms deepseek_session_throws[where g = "deepseek_response w" and env = env and s = s]
    by (simp add: session_throws_def sendMessage_def selected_model_def)
next
  case False
  then show ?thesis
    using assms gemini_session_throws[where g = "gemini_response w" and s = s and env = env]
    by (simp add: session_throws_def sendMessage_def selected_model_def)
qed

lemma sendMessage_frame: "activeChatId (sendMessage env w s um fl) = activeChatId s"
  by (simp add: sendMessage_def gemini_session_frame deepseek_session_frame)

lemma session_throws_cong:
  "stopGeneration s = stopGeneration st \<Longrightarrow> currentSettings s = currentSettings st \<Longrightarrow>
   session_throws env w s = session_throws env w st"
  by (simp add: session_throws_def selected_model_def split: opened.splits)

lemma beforeSend_frame:
  "chatHistoryArray (beforeSend st um now uts)
     = chatHistoryArray st @ [userMessageForHistory st um uts]"
  "stored_chats (beforeSend st um now uts) = stored_chats st"
  "currentSettings (beforeSend st um now uts) = currentSettings st"
  "attachedFile (beforeSend st um now uts) = attachedFile st"
  "stopGeneration (beforeSend st um now uts) = stopGeneration st"
  "truthy_str (activeChatId (beforeSend st um now uts))"
  using activeChatId_assignChatId[of st um now]
  by (simp_all add: beforeSend_def Let_def assignChatId_frame userMessageForHistory_def)

text \<open>
  Claim C10.  A send appends the user turn to the turns in memory before the session
  starts, and stores nothing at that point.  After the send either no model turn was
  committed, and then the stored conversations are those from before the send (the
  user turn is in memory only), or a model turn was committed, and then the stored
  snapshot of the active conversation holds the turns with the user turn and the
  model turn.  When the session throws, it is the first case.
\<close>

theorem C10_user_turn_saved_only_with_model_turn:
  "submits st isRecording v \<longrightarrow>
     (let st2 = beforeSend st (trim v) now uts;
          st' = handleFormSubmit env w st isRecording v now uts;
          turns = chatHistoryArray st @ [userMessageForHistory st (trim v) uts]
      in st' = clearAttachedFile (sendMessage env w st2 (trim v) (attachedFile st)) \<and>
         chatHistoryArray st2 = turns \<and> stored_chats st2 = stored_chats st \<and>
         ((chatHistoryArray st' = turns \<and> stored_chats st' = stored_chats st) \<or>
          (\<exists>m. sender m = SModel \<and> chatHistoryArray st' = turns @ [m] \<and>
             stored_chats st' = (stored_chats st)(the (activeChatId st') \<mapsto>
               \<lparr>settings = currentSettings st, messages = turns @ [m]\<rparr>)))
         \<and> (session_throws env w st \<longrightarrow>
              chatHistoryArray st' = turns \<and> stored_chats st' = stored_chats st))"
proof
  assume sub: "submits st isRecording v"
  let ?um = "trim v"
  let ?u = "userMessageForHistory st ?um uts"
  let ?st2 = "beforeSend st ?um now uts"
  let ?st3 = "sendMessage env w ?st2 ?um (attachedFile st)"
  note f = beforeSend_frame[of st ?um now uts]
  have r: "handleFormSubmit env w st isRecording v now uts = clearAttachedFile ?st3"
    using sub by (auto simp: handleFormSubmit_def submits_def Let_def f(4))
  have a2: "activeChatId (clearAttachedFile ?st3) = activeChatId ?st2"
    by (simp add: clearAttachedFile_def sendMessage_frame)
  have c: "chatHistoryArray (clearAttachedFile ?st3) = chatHistoryArray ?st3"
    "stored_chats (clearAttachedFile ?st3) = stored_chats ?st3"
    by (simp_all add: clearAttachedFile_def)
  have A: "(chatHistoryArray ?st3 = chatHistoryArray st @ [?u] \<and> stored_chats ?st3 = stored_chats st) \<or>
          (\<exists>m. sender m = SModel \<and> chatHistoryArray ?st3 = (chatHistoryArray st @ [?u]) @ [m] \<and>
             stored_chats ?st3 = (stored_chats st)(the (activeChatId ?st2) \<mapsto>
               \<lparr>settings = currentSettings st, messages = (chatHistoryArray st @ [?u]) @ [m]\<rparr>))"
    using sendMessage_cases[OF f(6), of env w ?um "attachedFile st"]
    unfolding f(1,2,3) .
  have B: "session_throws env w st \<Longrightarrow>
       chatHistoryArray ?st3 = chatHistoryArray st @ [?u] \<and> stored_chats ?st3 = stored_chats st"
  proof -
    assume "session_throws env w st"
    then have "session_throws env w ?st2"
      using session_throws_cong[of ?st2 st env w] f(3,5) by simp
    from sendMessage_throws[OF this, of ?um "attachedFile st"]
    show ?thesis unfolding f(1,2) .
  qed
  show "let st2 = beforeSend st (trim v) now uts;
          st' = handleFormSubmit env w st isRecording v now uts;
          turns = chatHistoryArray st @ [userMessageForHistory st (trim v) uts]
      in st' = clearAttachedFile (sendMessage env w st2 (trim v) (attachedFile st)) \<and>
         chatHistoryArray st2 = turns \<and> stored_chats st2 = stored_chats st \<and>
         ((chatHistoryArray st' = turns \<and> stored_chats st' = stored_chats st) \<or>
          (\<exists>m. sender m = SModel \<and> chatHistoryArray st' = turns @ [m] \<and>
             stored_chats st' = (stored_chats st)(the (activeChatId st') \<mapsto>
               \<lparr>settings = currentSettings st, messages = turns @ [m]\<rparr>)))
         \<and> (session_throws env w st \<longrightarrow>
              chatHistoryArray st' = turns \<and> stored_chats st' = stored_chats st)"
    unfolding Let_def r a2 c f(1,2) using A B by blast
qed

theorem C10_user_turn_saved_only_with_model_turn_witness:
  "submits st_init False ''hi'' \<and> session_throws example_env w_fail st_init \<and>
   chatHistoryArray (handleFormSubmit example_env w_fail st_init False ''hi'' ''1700000000000'' ''t0'')
     = [userMessageForHistory st_init ''hi'' ''t0''] \<and>
   stored_chats (handleFormSubmit example_env w_fail st_init False ''hi'' ''1700000000000'' ''t0'')
     = stored_chats st_init \<and>
   stored_chats st_init ''chat_1700000000000'' = None"
proof -
  have h1: "submits st_init False ''hi''"
    by (simp add: submits_def st_init_def trim_def is_ws_def)
  have h2: "session_throws example_env w_fail st_init"
    by (simp add: session_throws_def selected_model_def st_init_def defaultSettings_def
        w_fail_def world_def gemini_loop_feed draft0_def)
  have h3: "trim ''hi'' = ''hi''"
    by (simp add: trim_def is_ws_def)
  have h4: "chatHistoryArray st_init = []" "stored_chats st_init ''chat_1700000000000'' = None"
    by (simp_all add: st_init_def)
  note T = C10_user_turn_saved_only_with_model_turn[of st_init False "''hi''"
      "''1700000000000''" "''t0''" example_env w_fail, unfolded Let_def h3]
  have a: "chatHistoryArray
      (handleFormSubmit example_env w_fail st_init False ''hi'' ''1700000000000'' ''t0'')
     = chatHistoryArray st_init @ [userMessageForHistory st_init ''hi'' ''t0'']"
    using T h1 h2 by blast
  have b: "stored_chats
      (handleFormSubmit example_env w_fail st_init False ''hi'' ''1700000000000'' ''t0'')
     = stored_chats st_init"
    using T h1 h2 by blast
  show ?thesis
    using h1 h2 h4(2) a b unfolding h4(1) by simp
qed


section \<open>Loading a conversation without a stored payload\<close>

lemmas send_defs = handleFormSubmit_def beforeSend_def trim_def is_ws_def
      Let_def assignChatId_def truthy_str_def saveChatIndex_def userMessageForHistory_def
      sendMessage_def defaultSettings_def sendMessageWithGemini_def gchunk_def
      saveCurrentChat_def session_finally_def clearAttachedFile_def world_def two_texts_def
      text_of_def sources_of_def example_env_def

lemma s_first_eval:
  "activeChatId s_first = Some ''chat_1'' \<and>
   map content (chatHistoryArray s_first) = [''hello'', ''Hello''] \<and>
   map item_id (chatIndex s_first) = [''chat_1''] \<and>
   map_option (map content \<circ> messages) (stored_chats s_first ''chat_1'') = Some [''hello'', ''Hello''] \<and>
   stored_chats s_first ''chat_2'' = None \<and> \<not> isGenerating s_first \<and>
   \<not> stopGeneration s_first \<and> attachedFile s_first = None"
  by (simp add: s_first_def st_init_def w_ok_def send_defs)

lemma s_failed_eval:
  "activeChatId s_failed = Some ''chat_2'' \<and>
   map content (chatHistoryArray s_failed) = [''hi''] \<and>
   map item_id (chatIndex s_failed) = [''chat_2'', ''chat_1''] \<and>
   stored_chats s_failed = stored_chats s_first"
  using s_first_eval
  by (simp add: s_failed_def startNewChat_def w_fail_def send_defs)

text \<open>
  Claim C3 at one input that the functions above reach from the initial state: a first
  conversation \<^verbatim>\<open>chat_1\<close> with a committed answer, a new chat whose first send fails
  (\<^verbatim>\<open>chat_2\<close> gets its catalog entry, nothing is stored for it), a return to \<^verbatim>\<open>chat_1\<close>.
  \<^verbatim>\<open>loadChat\<close> of \<^verbatim>\<open>chat_2\<close> then makes \<^verbatim>\<open>chat_2\<close> the active conversation and keeps
  the two turns of \<^verbatim>\<open>chat_1\<close> as its turns.
\<close>

theorem C3_loadChat_missing_payload_keeps_turns:
  "getStoredChat s_back ''chat_2'' = None \<and>
   map item_id (chatIndex s_back) = [''chat_2'', ''chat_1''] \<and>
   activeChatId s_back = Some ''chat_1'' \<and>
   map content (chatHistoryArray s_back) = [''hello'', ''Hello''] \<and>
   activeChatId (loadChat s_back ''chat_2'') = Some ''chat_2'' \<and>
   map content (chatHistoryArray (loadChat s_back ''chat_2'')) = [''hello'', ''Hello''] \<and>
   chatHistoryArray (loadChat s_back ''chat_2'') \<noteq> []"
  using s_first_eval s_failed_eval
  by (auto simp: s_back_def loadChat_def getStoredChat_def Let_def split: option.splits)

end
